theory Spec2Isabelle
  imports Main "HOL-Library.Sublist" "HOL-Library.Multiset" "HOL-Library.Char_ord" "HOL-Library.List_Lexorder"
begin

section \<open>Data model of the backfill engine (src/sync/installation.ts)\<close>

text \<open>
  The task categories of \<^verbatim>\<open>TaskType\<close>: the string literals "repository", "pull",
  "branch", "commit", "build" and "deployment". \<open>taskName\<close> gives the literal back, for the
  column names that the code builds from it.
\<close>

datatype TaskType = TRepository | TPull | TBranch | TCommit | TBuild | TDeployment

fun taskName :: "TaskType \<Rightarrow> string" where
  "taskName TRepository = ''repository''"
| "taskName TPull = ''pull''"
| "taskName TBranch = ''branch''"
| "taskName TCommit = ''commit''"
| "taskName TBuild = ''build''"
| "taskName TDeployment = ''deployment''"

text \<open>\<^verbatim>\<open>const allTaskTypes: TaskType[] = ["pull", "branch", "commit", "build", "deployment"]\<close>\<close>

definition allTaskTypes :: "TaskType list" where
  "allTaskTypes = [TPull, TBranch, TCommit, TBuild, TDeployment]"

text \<open>
  lodash \<^verbatim>\<open>intersection(a, b)\<close>: the unique values of \<open>a\<close> that are also in \<open>b\<close>, in the
  order of their first occurrence in \<open>a\<close>.
\<close>

fun uniq :: "'a list \<Rightarrow> 'a list" where
  "uniq [] = []"
| "uniq (x # xs) = x # filter (\<lambda>y. y \<noteq> x) (uniq xs)"

definition intersection :: "'a list \<Rightarrow> 'a list \<Rightarrow> 'a list" where
  "intersection xs ys = uniq (filter (\<lambda>x. x \<in> set ys) xs)"

text \<open>
  \<^verbatim>\<open>getTargetTasks(targetTasks?)\<close>: an absent filter is \<open>None\<close>; \<^verbatim>\<open>targetTasks?.length\<close> is
  truthy exactly for a present, non-empty list.
\<close>

definition getTargetTasks :: "TaskType list option \<Rightarrow> TaskType list" where
  "getTargetTasks targetTasks =
     (case targetTasks of
        None \<Rightarrow> allTaskTypes
      | Some ts \<Rightarrow> if length ts \<noteq> 0 then intersection allTaskTypes ts else allTaskTypes)"

text \<open>\<^verbatim>\<open>getCursorKey\<close> and \<^verbatim>\<open>getStatusKey\<close>: the template strings \<^verbatim>\<open>`${type}Cursor`\<close>, \<^verbatim>\<open>`${type}Status`\<close>.\<close>

definition getCursorKey :: "TaskType \<Rightarrow> string" where
  "getCursorKey type = taskName type @ ''Cursor''"

definition getStatusKey :: "TaskType \<Rightarrow> string" where
  "getStatusKey type = taskName type @ ''Status''"

subsection \<open>Values, records and the store\<close>

text \<open>
  The values that the engine reads from and writes to a record's fields: strings (statuses,
  cursors), dates (as epoch milliseconds) and null. A field that was never written is absent
  from the field map (\<^verbatim>\<open>undefined\<close>). \<open>falsy\<close> is JavaScript's \<^verbatim>\<open>!v\<close> on these values.
\<close>

datatype jsvalue = Str string | Date int | Null

fun falsy :: "jsvalue option \<Rightarrow> bool" where
  "falsy None = True"
| "falsy (Some Null) = True"
| "falsy (Some (Str s)) = (s = [])"
| "falsy (Some (Date t)) = False"

text \<open>\<^verbatim>\<open>v || undefined\<close>\<close>

definition orUndefined :: "jsvalue option \<Rightarrow> jsvalue option" where
  "orUndefined v = (if falsy v then None else v)"

text \<open>An object literal of named fields, such as \<^verbatim>\<open>{ [getStatusKey(task)]: status }\<close>.\<close>

type_synonym fields = "(string \<times> jsvalue) list"

text \<open>
  A Subscription as the engine sees it: the fields \<^verbatim>\<open>syncStatus\<close>, \<^verbatim>\<open>repositoryStatus\<close>,
  \<^verbatim>\<open>repositoryCursor\<close> and \<^verbatim>\<open>backfillSince\<close>, by name.
\<close>

type_synonym Subscription = "string \<rightharpoonup> jsvalue"

text \<open>
  A RepoSyncState row: the repository's identity, and the per-category columns
  (\<^verbatim>\<open>pullStatus\<close>, \<^verbatim>\<open>pullCursor\<close>, ..., \<^verbatim>\<open>commitFrom\<close>) by name, as the code reaches them
  through \<^verbatim>\<open>syncState[getStatusKey(taskType)]\<close>.
\<close>

record RepoSyncState =
  row_id :: nat
  repoId :: nat
  repoName :: string
  repoOwner :: string
  repoFullName :: string
  repoUrl :: string
  repoUpdatedAt :: "int option"
  columns :: "string \<rightharpoonup> jsvalue"

text \<open>The denormalised repository snapshot of a task (\<^verbatim>\<open>updated_at\<close> as epoch milliseconds).\<close>

record Repository =
  repo_id :: nat
  repo_name :: string
  full_name :: string
  owner_login :: string
  html_url :: string
  updated_at :: "int option"

text \<open>A Task; the empty snapshot \<^verbatim>\<open>{} as Repository\<close> of the discovery task is \<open>None\<close>.\<close>

record Task =
  task :: TaskType
  repositoryId :: nat
  repository :: "Repository option"
  cursor :: "jsvalue option"

text \<open>
  The queue message. \<open>commitsFromDate\<close> is the instant that the message's date string
  denotes (\<^verbatim>\<open>new Date(data.commitsFromDate).getTime()\<close>), \<open>None\<close> when the field is absent or
  empty.
\<close>

record BackfillMessagePayload =
  installationId :: nat
  jiraHost :: string
  gitHubAppId :: "nat option"
  targetTasks :: "TaskType list option"
  commitsFromDate :: "int option"
  startTime :: "int option"

text \<open>
  A processor's result: \<open>edges\<close> holds the cursor of each edge, in order; \<open>None\<close> is an
  absent \<^verbatim>\<open>edges\<close> field.
\<close>

record TaskResultPayload =
  edges :: "jsvalue list option"

text \<open>
  The effects of one attempt. The world holds the store's records of the installation that
  the message addresses (its Subscription, if it still exists, and that Subscription's
  RepoSyncState rows), the delays handed to \<^verbatim>\<open>scheduleNextTask\<close> so far (the caller's
  \<^verbatim>\<open>nextTaskDelaysMs.push(delayMs)\<close>), and the log of field merges sent to the store.
\<close>

datatype store_write = SubscriptionUpdate fields | RepoSyncStateUpdate nat fields

record world =
  subscription :: "Subscription option"
  repoSyncStates :: "RepoSyncState list"
  nextTaskDelaysMs :: "int list"
  writes :: "store_write list"

definition scheduleNextTask :: "int \<Rightarrow> world \<Rightarrow> world" where
  "scheduleNextTask delayMs w = w\<lparr>nextTaskDelaysMs := nextTaskDelaysMs w @ [delayMs]\<rparr>"

subsection \<open>The Progress Store's operations\<close>

text \<open>
  Modelled from the spec: \<^verbatim>\<open>Subscription.getSingleInstallation\<close> (models/subscription is not
  under src), the store's \<^verbatim>\<open>findSubscription(jiraHost, installationId, appId)\<close>, which
  gives the Subscription or none. The world holds the records of the addressed installation.
\<close>

definition findSubscriptionForMessage :: "BackfillMessagePayload \<Rightarrow> world \<Rightarrow> Subscription option" where
  "findSubscriptionForMessage dat w = subscription w"

text \<open>
  Modelled from the spec: \<^verbatim>\<open>subscription.update(fields)\<close>, the store's
  \<^verbatim>\<open>updateSubscription(subscription, fields)\<close>, a single merge of named fields into the
  Subscription record. The in-memory instance takes the same fields and is returned.
\<close>

definition subscriptionUpdate :: "Subscription \<Rightarrow> fields \<Rightarrow> world \<Rightarrow> Subscription \<times> world" where
  "subscriptionUpdate inst vals w =
     (inst ++ map_of vals,
      w\<lparr>subscription := map_option (\<lambda>s. s ++ map_of vals) (subscription w),
        writes := writes w @ [SubscriptionUpdate vals]\<rparr>)"

text \<open>
  Modelled from the spec: \<^verbatim>\<open>RepoSyncState.updateRepoFromSubscription\<close> (models/reposyncstate
  is not under src), the store's \<^verbatim>\<open>mergeFields(subscription, repoId, fields)\<close>: the fields
  are merged into the Subscription's rows of that repository.
\<close>

definition updateRepoFromSubscription :: "nat \<Rightarrow> fields \<Rightarrow> world \<Rightarrow> world" where
  "updateRepoFromSubscription rid vals w =
     w\<lparr>repoSyncStates :=
         map (\<lambda>r. if repoId r = rid then r\<lparr>columns := columns r ++ map_of vals\<rparr> else r)
           (repoSyncStates w),
       writes := writes w @ [RepoSyncStateUpdate rid vals]\<rparr>"

text \<open>
  Modelled from the spec: \<^verbatim>\<open>RepoSyncState.findByRepoId\<close>, the Subscription's row of a
  repository, if any.
\<close>

definition findByRepoId :: "nat \<Rightarrow> world \<Rightarrow> RepoSyncState option" where
  "findByRepoId rid w = List.find (\<lambda>r. repoId r = rid) (repoSyncStates w)"

text \<open>
  Modelled from the spec: \<^verbatim>\<open>RepoSyncState.findAllFromSubscription\<close> with
  \<^verbatim>\<open>order: [["repoUpdatedAt", "DESC"], ["id", "DESC"]]\<close>, the store's
  \<^verbatim>\<open>findRepoStates(subscription, order)\<close>. \<open>ranksBefore a b\<close> says that row \<open>a\<close> is not
  after row \<open>b\<close> in that order; rows without \<^verbatim>\<open>repoUpdatedAt\<close> come first, where the
  database puts NULLs under DESC.
\<close>

definition ranksBefore :: "RepoSyncState \<Rightarrow> RepoSyncState \<Rightarrow> bool" where
  "ranksBefore a b =
     (case repoUpdatedAt a of
        None \<Rightarrow> (case repoUpdatedAt b of None \<Rightarrow> row_id b \<le> row_id a | Some y \<Rightarrow> True)
      | Some x \<Rightarrow>
          (case repoUpdatedAt b of
             None \<Rightarrow> False
           | Some y \<Rightarrow> y < x \<or> (y = x \<and> row_id b \<le> row_id a)))"

fun insertRanked :: "RepoSyncState \<Rightarrow> RepoSyncState list \<Rightarrow> RepoSyncState list" where
  "insertRanked r [] = [r]"
| "insertRanked r (x # xs) = (if ranksBefore r x then r # x # xs else x # insertRanked r xs)"

definition findAllFromSubscription :: "world \<Rightarrow> RepoSyncState list" where
  "findAllFromSubscription w = foldr insertRanked (repoSyncStates w) []"

subsection \<open>Task Selector\<close>

text \<open>
  The predicate of \<^verbatim>\<open>tasks.find\<close> in \<^verbatim>\<open>getNextTask\<close>:
  \<^verbatim>\<open>!syncState[getStatusKey(taskType)] || syncState[getStatusKey(taskType)] === "pending"\<close>.
\<close>

definition isOutstanding :: "RepoSyncState \<Rightarrow> TaskType \<Rightarrow> bool" where
  "isOutstanding syncState taskType =
     (falsy (columns syncState (getStatusKey taskType))
      \<or> columns syncState (getStatusKey taskType) = Some (Str ''pending''))"

text \<open>The task that \<^verbatim>\<open>getNextTask\<close> returns for a row and a category found there.\<close>

definition repoTask :: "RepoSyncState \<Rightarrow> TaskType \<Rightarrow> Task" where
  "repoTask syncState t =
     \<lparr>task = t,
      repositoryId = repoId syncState,
      repository = Some
        \<lparr>repo_id = repoId syncState,
         repo_name = repoName syncState,
         full_name = repoFullName syncState,
         owner_login = repoOwner syncState,
         html_url = repoUrl syncState,
         updated_at = repoUpdatedAt syncState\<rparr>,
      cursor = orUndefined (columns syncState (getCursorKey t))\<rparr>"

text \<open>The loop \<^verbatim>\<open>for (const syncState of repoSyncStates)\<close> of \<^verbatim>\<open>getNextTask\<close>.\<close>

fun firstTask :: "TaskType list \<Rightarrow> RepoSyncState list \<Rightarrow> Task option" where
  "firstTask tasks [] = None"
| "firstTask tasks (syncState # rest) =
     (case List.find (isOutstanding syncState) tasks of
        None \<Rightarrow> firstTask tasks rest
      | Some t \<Rightarrow> Some (repoTask syncState t))"

definition getNextTask :: "Subscription \<Rightarrow> TaskType list option \<Rightarrow> world \<Rightarrow> Task option" where
  "getNextTask subscr filterTasks w =
     (if subscr ''repositoryStatus'' \<noteq> Some (Str ''complete'')
      then Some \<lparr>task = TRepository, repositoryId = 0, repository = None,
                 cursor = orUndefined (subscr ''repositoryCursor'')\<rparr>
      else firstTask (getTargetTasks filterTasks) (findAllFromSubscription w))"

subsection \<open>Progress update and continuation\<close>

text \<open>lodash \<^verbatim>\<open>pick(values, keys)\<close> and \<^verbatim>\<open>omit(values, keys)\<close> on an object literal.\<close>

definition pick :: "fields \<Rightarrow> string list \<Rightarrow> fields" where
  "pick vals keys = filter (\<lambda>kv. fst kv \<in> set keys) vals"

definition omit :: "fields \<Rightarrow> string list \<Rightarrow> fields" where
  "omit vals keys = filter (\<lambda>kv. fst kv \<notin> set keys) vals"

text \<open>
  \<^verbatim>\<open>updateRepo(subscription, repoId, values)\<close>: the two updates of \<^verbatim>\<open>Promise.all\<close>, each
  issued only when it has a field (\<^verbatim>\<open>Object.keys(...).length && ...\<close>), the Subscription's
  first. The updated in-memory Subscription is returned with the world.
\<close>

definition updateRepo :: "Subscription \<Rightarrow> nat \<Rightarrow> fields \<Rightarrow> world \<Rightarrow> Subscription \<times> world" where
  "updateRepo subscr rid vals w =
     (let subscriptionRepoStateValues = pick vals [''repositoryStatus'', ''repositoryCursor''];
          repoSyncStateValues = omit vals [''repositoryStatus'', ''repositoryCursor''];
          sw = (if length subscriptionRepoStateValues \<noteq> 0
                then subscriptionUpdate subscr subscriptionRepoStateValues w
                else (subscr, w))
      in (fst sw,
          if length repoSyncStateValues \<noteq> 0
          then updateRepoFromSubscription rid repoSyncStateValues (snd sw)
          else snd sw))"

text \<open>
  \<^verbatim>\<open>getBackfillSince\<close>: \<^verbatim>\<open>commitSince || null\<close>. Its \<^verbatim>\<open>catch\<close> branch has nothing to catch
  here, the message's date being already an instant.
\<close>

definition getBackfillSince :: "BackfillMessagePayload \<Rightarrow> jsvalue" where
  "getBackfillSince dat = (case commitsFromDate dat of Some t \<Rightarrow> Date t | None \<Rightarrow> Null)"

text \<open>
  \<^verbatim>\<open>!repoSync.commitFrom || repoSync.commitFrom.getTime() > commitsFromDate.getTime()\<close>.
  \<^verbatim>\<open>commitFrom\<close> is a date column: it holds a date or null.
\<close>

definition floorIsLater :: "jsvalue option \<Rightarrow> int \<Rightarrow> bool" where
  "floorIsLater stored t =
     (falsy stored \<or> (case stored of Some (Date s) \<Rightarrow> t < s | _ \<Rightarrow> False))"

text \<open>
  The object \<^verbatim>\<open>updateRepoSyncFields\<close> of \<^verbatim>\<open>updateTaskStatusAndContinue\<close>: the status, and
  \<^verbatim>\<open>commitFrom\<close> when the \<^verbatim>\<open>if (isComplete && task === "commit" && data.commitsFromDate)\<close>
  block sets it.
\<close>

definition updateRepoSyncFields ::
  "BackfillMessagePayload \<Rightarrow> bool \<Rightarrow> TaskType \<Rightarrow> nat \<Rightarrow> world \<Rightarrow> fields" where
  "updateRepoSyncFields dat isComplete taskType rid w =
     (getStatusKey taskType, Str (if isComplete then ''complete'' else ''pending''))
     # (if isComplete \<and> taskType = TCommit
        then (case commitsFromDate dat of
                None \<Rightarrow> []
              | Some commitsFrom \<Rightarrow>
                  (case findByRepoId rid w of
                     None \<Rightarrow> []
                   | Some repoSync \<Rightarrow>
                       if floorIsLater (columns repoSync ''commitFrom'') commitsFrom
                       then [(''commitFrom'', Date commitsFrom)]
                       else []))
        else [])"

definition updateTaskStatusAndContinue ::
  "BackfillMessagePayload \<Rightarrow> TaskResultPayload \<Rightarrow> TaskType \<Rightarrow> nat \<Rightarrow> world \<Rightarrow> world" where
  "updateTaskStatusAndContinue dat taskResultPayload taskType rid w =
     (case findSubscriptionForMessage dat w of
        None \<Rightarrow> w
      | Some subscr \<Rightarrow>
          (let es = (case edges taskResultPayload of None \<Rightarrow> [] | Some es \<Rightarrow> es);
               isComplete = (length es = 0);
               sw = updateRepo subscr rid (updateRepoSyncFields dat isComplete taskType rid w) w
           in if \<not> isComplete
              then scheduleNextTask 0
                     (snd (updateRepo (fst sw) rid [(getCursorKey taskType, es ! (length es - 1))] (snd sw)))
              else if getNextTask (fst sw) (targetTasks dat) (snd sw) = None
              then snd (subscriptionUpdate (fst sw)
                          [(''syncStatus'', Str ''COMPLETE''), (''backfillSince'', getBackfillSince dat)]
                          (snd sw))
              else scheduleNextTask 0 (snd sw)))"

subsection \<open>Error Classifier\<close>

text \<open>
  Modelled from the spec: the error classes of github/client/github-client-errors, which is
  not under src. An upstream failure is rate-limited (with its reset instant, in epoch
  seconds), or a GitHub client error with an optional HTTP status, or a GraphQL client error
  that also carries the \<^verbatim>\<open>type\<close> of each GraphQL error; a rate-limiting error has no
  not-found status. Any other \<^verbatim>\<open>Error\<close> is \<open>OtherError\<close>, with its message.
\<close>

datatype error =
    OtherError string
  | GithubClientError "int option"
  | GithubClientGraphQLError "int option" "string list"
  | RateLimitingError int

fun instanceofGithubClientError :: "error \<Rightarrow> bool" where
  "instanceofGithubClientError (OtherError m) = False"
| "instanceofGithubClientError (GithubClientError st) = True"
| "instanceofGithubClientError (GithubClientGraphQLError st tys) = True"
| "instanceofGithubClientError (RateLimitingError r) = True"

fun instanceofGithubClientGraphQLError :: "error \<Rightarrow> bool" where
  "instanceofGithubClientGraphQLError (GithubClientGraphQLError st tys) = True"
| "instanceofGithubClientGraphQLError e = False"

fun errStatus :: "error \<Rightarrow> int option" where
  "errStatus (GithubClientError st) = st"
| "errStatus (GithubClientGraphQLError st tys) = st"
| "errStatus e = None"

text \<open>Modelled from the spec: \<^verbatim>\<open>isNotFound()\<close>, the GraphQL-level not-found marker.\<close>

fun isNotFound :: "error \<Rightarrow> bool" where
  "isNotFound (GithubClientGraphQLError st tys) = (''NOT_FOUND'' \<in> set tys)"
| "isNotFound e = False"

text \<open>
  What \<^verbatim>\<open>isNotFoundGithubError\<close> is written to decide: a 404 status or the GraphQL
  not-found marker.
\<close>

definition reportsNotFound :: "error \<Rightarrow> bool" where
  "reportsNotFound err =
     (errStatus err = Some 404 \<or> (instanceofGithubClientGraphQLError err \<and> isNotFound err))"

text \<open>
  \<^verbatim>\<open>const isNotFoundGithubError = (err: GithubClientError) => () => ...\<close>: applied to an
  error it returns the inner arrow function, not the function's result.
\<close>

definition isNotFoundGithubError :: "error \<Rightarrow> unit \<Rightarrow> bool" where
  "isNotFoundGithubError err = (\<lambda>_. reportsNotFound err)"

text \<open>A function value in a condition: every function is truthy.\<close>

definition truthyFunction :: "(unit \<Rightarrow> bool) \<Rightarrow> bool" where
  "truthyFunction f = True"

text \<open>
  \<^verbatim>\<open>TaskError\<close>: the cause and \<^verbatim>\<open>_.cloneDeep(task)\<close>. A task is a value here, and its deep
  copy is the same value.
\<close>

definition cloneDeep :: "Task \<Rightarrow> Task" where
  "cloneDeep t = t"

datatype TaskError = TaskError Task error

text \<open>
  \<^verbatim>\<open>handleBackfillError\<close>; \<open>now\<close> is \<^verbatim>\<open>Date.now()\<close>. The result is the error thrown, if any,
  and the world.
\<close>

definition handleBackfillError ::
  "int \<Rightarrow> error \<Rightarrow> BackfillMessagePayload \<Rightarrow> Task \<Rightarrow> world \<Rightarrow> TaskError option \<times> world" where
  "handleBackfillError now err dat nextTask w =
     (case err of
        RateLimitingError rateLimitReset \<Rightarrow>
          (let delayMs = max (rateLimitReset * 1000 - now) 0
           in if delayMs \<noteq> 0
              then (None, scheduleNextTask delayMs w)
              else (None, scheduleNextTask 0 w))
      | _ \<Rightarrow>
          if instanceofGithubClientError err \<and> truthyFunction (isNotFoundGithubError err)
          then (None,
                updateTaskStatusAndContinue dat \<lparr>edges = Some []\<rparr> (task nextTask)
                  (repositoryId nextTask) w)
          else (Some (TaskError (cloneDeep nextTask) err), w))"

definition markCurrentTaskAsFailedAndContinue ::
  "BackfillMessagePayload \<Rightarrow> Task \<Rightarrow> world \<Rightarrow> world" where
  "markCurrentTaskAsFailedAndContinue dat nextTask w =
     (case findSubscriptionForMessage dat w of
        None \<Rightarrow> w
      | Some subscr \<Rightarrow>
          (let sw = updateRepo subscr (repositoryId nextTask)
                      [(getStatusKey (task nextTask), Str ''failed'')] w
           in if task nextTask = TRepository
              then snd (subscriptionUpdate (fst sw) [(''syncStatus'', Str ''FAILED'')] (snd sw))
              else scheduleNextTask 0 (snd sw)))"

subsection \<open>Execution Engine\<close>

text \<open>
  What the \<^verbatim>\<open>try\<close> block of \<^verbatim>\<open>doProcessInstallation\<close> gets from its collaborators (the
  GitHub client, the processor, the Jira submission) before it updates the progress: an
  error thrown, or the processor's result.
\<close>

datatype attempt = Throws error | Returns TaskResultPayload

definition doProcessInstallation ::
  "int \<Rightarrow> BackfillMessagePayload \<Rightarrow> attempt \<Rightarrow> world \<Rightarrow> TaskError option \<times> world" where
  "doProcessInstallation now dat outcome w =
     (case findSubscriptionForMessage dat w of
        None \<Rightarrow> (None, w)
      | Some subscr \<Rightarrow>
          (case getNextTask subscr (targetTasks dat) w of
             None \<Rightarrow>
               (None,
                snd (subscriptionUpdate subscr
                       [(''syncStatus'', Str ''COMPLETE''), (''backfillSince'', getBackfillSince dat)] w))
           | Some nextTask \<Rightarrow>
               (let sw = subscriptionUpdate subscr [(''syncStatus'', Str ''ACTIVE'')] w
                in case outcome of
                     Returns taskPayload \<Rightarrow>
                       (None,
                        updateTaskStatusAndContinue dat taskPayload (task nextTask)
                          (repositoryId nextTask) (snd sw))
                   | Throws err \<Rightarrow> handleBackfillError now err dat nextTask (snd sw))))"

subsection \<open>Rescheduler\<close>

text \<open>
  The delays are JavaScript numbers that hold integers (of milliseconds). The model covers
  the safe integers, of magnitude at most \<open>2^53 - 1\<close>: each of them is a number, its string
  form is its plain decimal numeral, and \<^verbatim>\<open>Math.ceil(x / 1000)\<close> is the ceiling of the exact
  quotient. Beyond them not every integer is a number, the division rounds, and from
  \<open>10^21\<close> the string form is in exponent notation: for a list with such a delay the model
  gives no result (\<open>None\<close>).
\<close>

definition safeInteger :: "int \<Rightarrow> bool" where
  "safeInteger i = (- 9007199254740991 \<le> i \<and> i \<le> 9007199254740991)"

text \<open>The decimal numeral of an integer: the string form of a safe integer.\<close>

fun natToString :: "nat \<Rightarrow> string" where
  "natToString n =
     (if n < 10 then [''0123456789'' ! n]
      else natToString (n div 10) @ [''0123456789'' ! (n mod 10)])"

declare natToString.simps [simp del]

definition decimal :: "int \<Rightarrow> string" where
  "decimal i = (if i < 0 then CHR ''-'' # natToString (nat (- i)) else natToString (nat i))"

text \<open>
  \<^verbatim>\<open>Array.prototype.sort()\<close> without a comparator: a stable sort of the elements by their
  string forms, compared by code units.
\<close>

definition jsSort :: "int list \<Rightarrow> int list option" where
  "jsSort xs = (if list_all safeInteger xs then Some (sort_key decimal xs) else None)"

text \<open>\<^verbatim>\<open>Math.ceil(x / 1000)\<close> on a safe integer.\<close>

definition ceilSeconds :: "int \<Rightarrow> int" where
  "ceilSeconds x = - ((- x) div 1000)"

text \<open>
  \<^verbatim>\<open>maybeScheduleNextTask\<close>: the result is the list of calls
  \<^verbatim>\<open>sendSQSBackfillMessage(jobData, delay, logger)\<close> that it makes, each as the message and
  its delay in seconds. \<^verbatim>\<open>shift()\<close> takes the first element of the sorted, reversed array.
\<close>

definition maybeScheduleNextTask ::
  "BackfillMessagePayload \<Rightarrow> int list \<Rightarrow> (BackfillMessagePayload \<times> int) list option" where
  "maybeScheduleNextTask jobData nextTaskDelays =
     (if length nextTaskDelays \<noteq> 0
      then (case jsSort nextTaskDelays of
              None \<Rightarrow> None
            | Some ascending \<Rightarrow>
                (let sorted = rev ascending;
                     delayMs = (case sorted of [] \<Rightarrow> None | d # rest \<Rightarrow> Some d)
                 in Some [(jobData,
                           ceilSeconds (case delayMs of None \<Rightarrow> 0
                                        | Some d \<Rightarrow> if d \<noteq> 0 then d else 0))]))
      else Some [])"

section \<open>Example records\<close>

text \<open>
  A discovered Subscription with two repositories: \<open>rowB\<close>, updated last, has no category
  left to run (its commit category has failed); \<open>rowA\<close> has its pull requests complete
  and its branches pending at a cursor.
\<close>

definition rowA :: RepoSyncState where
  "rowA = \<lparr>row_id = 1, repoId = 10, repoName = ''a'', repoOwner = ''o'', repoFullName = ''o/a'',
            repoUrl = ''https://github.test/o/a'', repoUpdatedAt = Some 100,
            columns = [''pullStatus'' \<mapsto> Str ''complete'', ''branchStatus'' \<mapsto> Str ''pending'',
                       ''branchCursor'' \<mapsto> Str ''abc'']\<rparr>"

definition rowB :: RepoSyncState where
  "rowB = \<lparr>row_id = 2, repoId = 20, repoName = ''b'', repoOwner = ''o'', repoFullName = ''o/b'',
            repoUrl = ''https://github.test/o/b'', repoUpdatedAt = Some 200,
            columns = [''pullStatus'' \<mapsto> Str ''complete'', ''branchStatus'' \<mapsto> Str ''complete'',
                       ''commitStatus'' \<mapsto> Str ''failed'', ''buildStatus'' \<mapsto> Str ''complete'',
                       ''deploymentStatus'' \<mapsto> Str ''complete'']\<rparr>"

definition discovered :: Subscription where
  "discovered = [''repositoryStatus'' \<mapsto> Str ''complete'']"

definition exWorld :: world where
  "exWorld = \<lparr>subscription = Some discovered, repoSyncStates = [rowA, rowB],
               nextTaskDelaysMs = [], writes = []\<rparr>"

text \<open>A message without filter or commit floor, the discovery task, and the build task of \<open>rowA\<close>.\<close>

definition discoveryTask :: Task where
  "discoveryTask = \<lparr>task = TRepository, repositoryId = 0, repository = None, cursor = None\<rparr>"

definition buildTaskA :: Task where
  "buildTaskA = repoTask rowA TBuild"

definition message :: BackfillMessagePayload where
  "message = \<lparr>installationId = 1234, jiraHost = ''https://test.atlassian.net'', gitHubAppId = None,
              targetTasks = None, commitsFromDate = None, startTime = None\<rparr>"

text \<open>The branch task of \<open>rowA\<close>, as \<open>getNextTask\<close> selects it in \<open>exWorld\<close>.\<close>

definition branchTaskA :: Task where
  "branchTaskA = repoTask rowA TBranch"


text \<open>A page of two edges.\<close>

definition twoEdges :: TaskResultPayload where
  "twoEdges = \<lparr>edges = Some [Str ''c1'', Str ''c2'']\<rparr>"

text \<open>
  A store with nothing left to run although a category has failed: only \<open>rowB\<close>, whose
  commit category has failed.
\<close>

definition doneWorld :: world where
  "doneWorld = exWorld\<lparr>repoSyncStates := [rowB]\<rparr>"

definition commitTaskB :: Task where
  "commitTaskB = repoTask rowB TCommit"

text \<open>
  A store whose rows are not listed in ranking order: \<open>rowC\<close>, updated last, has its
  commits pending at a cursor. And a Subscription whose discovery is under way.
\<close>

definition rowC :: RepoSyncState where
  "rowC = \<lparr>row_id = 3, repoId = 30, repoName = ''c'', repoOwner = ''o'', repoFullName = ''o/c'',
            repoUrl = ''https://github.test/o/c'', repoUpdatedAt = Some 300,
            columns = [''pullStatus'' \<mapsto> Str ''complete'', ''branchStatus'' \<mapsto> Str ''complete'',
                       ''commitStatus'' \<mapsto> Str ''pending'', ''commitCursor'' \<mapsto> Str ''xyz'']\<rparr>"

definition orderWorld :: world where
  "orderWorld = exWorld\<lparr>repoSyncStates := [rowA, rowC]\<rparr>"

definition discovering :: Subscription where
  "discovering = [''repositoryStatus'' \<mapsto> Str ''pending'', ''repositoryCursor'' \<mapsto> Str ''page2'']"



section \<open>Category filter\<close>

lemma uniq_distinct_id: "distinct xs \<Longrightarrow> uniq xs = xs"
proof (induction xs)
  case Nil
  show ?case by simp
next
  case (Cons x xs)
  then have "filter (\<lambda>y. y \<noteq> x) xs = xs"
    by (intro filter_True) auto
  with Cons show ?case by simp
qed

lemma intersection_distinct: "distinct xs \<Longrightarrow> intersection xs ys = filter (\<lambda>x. x \<in> set ys) xs"
  by (simp add: intersection_def uniq_distinct_id)

lemma distinct_allTaskTypes: "distinct allTaskTypes"
  by (simp add: allTaskTypes_def)

text \<open>
  C8: for every filter, \<open>getTargetTasks\<close> returns the fixed order
  [pull, branch, commit, build, deployment] intersected with the filter, as a subsequence of
  the fixed order (so never reordered by the filter), and the full fixed order when the
  filter is empty or absent.
\<close>

theorem getTargetTasks_fixed_order:
  "getTargetTasks None = [TPull, TBranch, TCommit, TBuild, TDeployment]
   \<and> getTargetTasks (Some []) = [TPull, TBranch, TCommit, TBuild, TDeployment]
   \<and> (ts \<noteq> [] \<longrightarrow>
        getTargetTasks (Some ts) = filter (\<lambda>t. t \<in> set ts) [TPull, TBranch, TCommit, TBuild, TDeployment]
        \<and> set (getTargetTasks (Some ts)) = set [TPull, TBranch, TCommit, TBuild, TDeployment] \<inter> set ts
        \<and> subseq (getTargetTasks (Some ts)) [TPull, TBranch, TCommit, TBuild, TDeployment])"
proof -
  have full: "allTaskTypes = [TPull, TBranch, TCommit, TBuild, TDeployment]"
    by (simp add: allTaskTypes_def)
  have sel: "getTargetTasks (Some ts) = filter (\<lambda>t. t \<in> set ts) allTaskTypes" if "ts \<noteq> []"
    using that by (simp add: getTargetTasks_def intersection_distinct distinct_allTaskTypes)
  have "subseq (filter (\<lambda>t. t \<in> set ts) allTaskTypes) allTaskTypes"
    by (rule subseq_filter_left)
  moreover have "set (filter (\<lambda>t. t \<in> set ts) allTaskTypes) = set allTaskTypes \<inter> set ts"
    by auto
  ultimately show ?thesis
    using sel by (simp add: getTargetTasks_def full del: subseq_Cons2_iff)
qed

theorem getTargetTasks_fixed_order_witness:
  "getTargetTasks (Some [TBuild, TRepository, TPull, TBuild]) = [TPull, TBuild]
   \<and> subseq (getTargetTasks (Some [TBuild, TRepository, TPull, TBuild]))
        [TPull, TBranch, TCommit, TBuild, TDeployment]"
  using getTargetTasks_fixed_order [of "[TBuild, TRepository, TPull, TBuild]"] by simp

section \<open>Task selection\<close>

lemma ranksBefore_total: "\<not> ranksBefore a b \<Longrightarrow> ranksBefore b a"
  by (auto simp: ranksBefore_def split: option.splits)

lemma ranksBefore_trans: "ranksBefore a b \<Longrightarrow> ranksBefore b c \<Longrightarrow> ranksBefore a c"
  by (auto simp: ranksBefore_def split: option.splits)

lemma mset_insertRanked: "mset (insertRanked r xs) = add_mset r (mset xs)"
  by (induction xs) auto

lemma set_insertRanked: "set (insertRanked r xs) = insert r (set xs)"
  by (induction xs) auto

lemma sorted_insertRanked:
  "sorted_wrt ranksBefore xs \<Longrightarrow> sorted_wrt ranksBefore (insertRanked r xs)"
proof (induction xs)
  case Nil
  show ?case by simp
next
  case (Cons x xs)
  show ?case
  proof (cases "ranksBefore r x")
    case True
    then have "\<forall>y\<in>set xs. ranksBefore r y"
      using Cons.prems ranksBefore_trans by auto
    with True Cons.prems show ?thesis by simp
  next
    case False
    then have "ranksBefore x r" by (rule ranksBefore_total)
    with False Cons show ?thesis by (auto simp: set_insertRanked)
  qed
qed

lemma mset_rank: "mset (foldr insertRanked xs []) = mset xs"
  by (induction xs) (auto simp: mset_insertRanked)

lemma sorted_rank: "sorted_wrt ranksBefore (foldr insertRanked xs [])"
  by (induction xs) (auto simp: sorted_insertRanked)

lemma find_Some_mem: "List.find P xs = Some x \<Longrightarrow> x \<in> set xs \<and> P x"
  by (induction xs) (auto split: if_splits)

lemma firstTask_find:
  "firstTask tasks rs =
     (case List.find (\<lambda>r. \<exists>t\<in>set tasks. isOutstanding r t) rs of
        None \<Rightarrow> None
      | Some r \<Rightarrow> map_option (repoTask r) (List.find (isOutstanding r) tasks))"
proof (induction rs)
  case Nil
  show ?case by simp
next
  case (Cons r rs)
  show ?case
  proof (cases "List.find (isOutstanding r) tasks")
    case None
    then have "\<not> (\<exists>t\<in>set tasks. isOutstanding r t)"
      by (auto simp: find_None_iff)
    with None Cons show ?thesis by simp
  next
    case (Some t)
    then have "\<exists>t\<in>set tasks. isOutstanding r t"
      using find_Some_mem by fastforce
    with Some show ?thesis by simp
  qed
qed

lemma firstTask_None:
  "firstTask tasks rs = None \<longleftrightarrow> (\<forall>r\<in>set rs. \<forall>t\<in>set tasks. \<not> isOutstanding r t)"
proof (cases "List.find (\<lambda>r. \<exists>t\<in>set tasks. isOutstanding r t) rs")
  case None
  then have "\<forall>r\<in>set rs. \<forall>t\<in>set tasks. \<not> isOutstanding r t"
    unfolding find_None_iff by blast
  with None show ?thesis by (simp add: firstTask_find)
next
  case (Some r)
  from find_Some_mem [OF Some] have r: "r \<in> set rs" "\<exists>t\<in>set tasks. isOutstanding r t"
    by auto
  then have "List.find (isOutstanding r) tasks \<noteq> None"
    unfolding find_None_iff by blast
  with Some r show ?thesis by (auto simp: firstTask_find)
qed

lemma firstTask_Some:
  "firstTask tasks rs = Some nt \<longleftrightarrow>
     (\<exists>i<length rs. (\<forall>j<i. \<forall>t\<in>set tasks. \<not> isOutstanding (rs ! j) t)
        \<and> (\<exists>k<length tasks. isOutstanding (rs ! i) (tasks ! k)
              \<and> (\<forall>l<k. \<not> isOutstanding (rs ! i) (tasks ! l))
              \<and> nt = repoTask (rs ! i) (tasks ! k)))"
  (is "?L \<longleftrightarrow> ?R")
proof
  assume ?L
  then obtain r t where r: "List.find (\<lambda>r. \<exists>t\<in>set tasks. isOutstanding r t) rs = Some r"
    and t: "List.find (isOutstanding r) tasks = Some t" and nt: "nt = repoTask r t"
    by (auto simp: firstTask_find split: option.splits)
  from r obtain i where i: "i < length rs" "r = rs ! i"
    "\<forall>j<i. \<not> (\<exists>t\<in>set tasks. isOutstanding (rs ! j) t)"
    unfolding find_Some_iff by blast
  from t obtain k where k: "k < length tasks" "isOutstanding r (tasks ! k)" "t = tasks ! k"
    "\<forall>l<k. \<not> isOutstanding r (tasks ! l)"
    unfolding find_Some_iff by blast
  show ?R
    using i k nt by blast
next
  assume ?R
  then obtain i k where i: "i < length rs"
    and before: "\<forall>j<i. \<forall>t\<in>set tasks. \<not> isOutstanding (rs ! j) t"
    and k: "k < length tasks" "isOutstanding (rs ! i) (tasks ! k)"
      "\<forall>l<k. \<not> isOutstanding (rs ! i) (tasks ! l)"
    and nt: "nt = repoTask (rs ! i) (tasks ! k)"
    by blast
  have "\<exists>t\<in>set tasks. isOutstanding (rs ! i) t"
    using k by (meson nth_mem)
  with i before have "List.find (\<lambda>r. \<exists>t\<in>set tasks. isOutstanding r t) rs = Some (rs ! i)"
    unfolding find_Some_iff by blast
  moreover have "List.find (isOutstanding (rs ! i)) tasks = Some (tasks ! k)"
    using k unfolding find_Some_iff by blast
  ultimately show ?L
    using nt by (simp add: firstTask_find)
qed

lemma getNextTask_first_outstanding:
  "(subscr ''repositoryStatus'' \<noteq> Some (Str ''complete'') \<longrightarrow>
      getNextTask subscr filterTasks w =
        Some \<lparr>task = TRepository, repositoryId = 0, repository = None,
              cursor = (if falsy (subscr ''repositoryCursor'') then None
                        else subscr ''repositoryCursor'')\<rparr>)
   \<and> (subscr ''repositoryStatus'' = Some (Str ''complete'') \<longrightarrow>
        (getNextTask subscr filterTasks w = None \<longleftrightarrow>
           (\<forall>r\<in>set (repoSyncStates w). \<forall>t\<in>set (getTargetTasks filterTasks). \<not> isOutstanding r t))
        \<and> (\<forall>nt. getNextTask subscr filterTasks w = Some nt \<longleftrightarrow>
              (\<exists>i<length (findAllFromSubscription w).
                 (\<forall>j<i. \<forall>t\<in>set (getTargetTasks filterTasks).
                    \<not> isOutstanding (findAllFromSubscription w ! j) t)
                 \<and> (\<exists>k<length (getTargetTasks filterTasks).
                       isOutstanding (findAllFromSubscription w ! i) (getTargetTasks filterTasks ! k)
                       \<and> (\<forall>l<k. \<not> isOutstanding (findAllFromSubscription w ! i)
                                     (getTargetTasks filterTasks ! l))
                       \<and> nt = repoTask (findAllFromSubscription w ! i)
                                 (getTargetTasks filterTasks ! k)))))
   \<and> sorted_wrt ranksBefore (findAllFromSubscription w)
   \<and> mset (findAllFromSubscription w) = mset (repoSyncStates w)"
proof -
  have perm: "mset (findAllFromSubscription w) = mset (repoSyncStates w)"
    by (simp add: findAllFromSubscription_def mset_rank)
  then have same: "set (findAllFromSubscription w) = set (repoSyncStates w)"
    by (rule mset_eq_setD)
  have ranked: "sorted_wrt ranksBefore (findAllFromSubscription w)"
    by (simp add: findAllFromSubscription_def sorted_rank)
  have discovery: "getNextTask subscr filterTasks w =
        Some \<lparr>task = TRepository, repositoryId = 0, repository = None,
              cursor = (if falsy (subscr ''repositoryCursor'') then None
                        else subscr ''repositoryCursor'')\<rparr>"
    if "subscr ''repositoryStatus'' \<noteq> Some (Str ''complete'')"
    using that by (simp add: getNextTask_def orUndefined_def)
  have sel: "getNextTask subscr filterTasks w =
      firstTask (getTargetTasks filterTasks) (findAllFromSubscription w)"
    if "subscr ''repositoryStatus'' = Some (Str ''complete'')"
    using that by (simp add: getNextTask_def)
  show ?thesis
    using discovery sel perm ranked
    by (simp add: firstTask_None firstTask_Some same)
qed

lemma falsy_iff: "falsy v \<longleftrightarrow> v = None \<or> v = Some Null \<or> v = Some (Str [])"
  by (cases v rule: falsy.cases) simp_all

text \<open>
  C7: \<open>getNextTask\<close> returns the repository discovery task, with the stored discovery
  cursor (none when it is unset or empty), whenever \<^verbatim>\<open>repositoryStatus\<close> is not complete.
  Otherwise it returns none exactly when no repository has a candidate category whose
  status is unset or pending; and it returns a task exactly for the first row, in the order
  (repoUpdatedAt DESC, id DESC), that has such a category: the first such category of the
  candidate list, the row's repository, and that category's stored cursor (none when it is
  unset or empty). The rows it walks are the Subscription's rows in that order, rows without
  \<^verbatim>\<open>repoUpdatedAt\<close> first.
\<close>

theorem getNextTask_selection:
  fixes subscr :: Subscription and filterTasks :: "TaskType list option" and w :: world
  defines "ranked \<equiv> findAllFromSubscription w"
    and "candidates \<equiv> getTargetTasks filterTasks"
    and "unset \<equiv> \<lambda>v :: jsvalue option. v = None \<or> v = Some Null \<or> v = Some (Str [])"
  defines "outstanding \<equiv> \<lambda>(r :: RepoSyncState) t.
             unset (columns r (taskName t @ ''Status''))
             \<or> columns r (taskName t @ ''Status'') = Some (Str ''pending'')"
  shows "(subscr ''repositoryStatus'' \<noteq> Some (Str ''complete'') \<longrightarrow>
      getNextTask subscr filterTasks w =
        Some \<lparr>task = TRepository, repositoryId = 0, repository = None,
              cursor = (if unset (subscr ''repositoryCursor'') then None
                        else subscr ''repositoryCursor'')\<rparr>)
   \<and> (subscr ''repositoryStatus'' = Some (Str ''complete'') \<longrightarrow>
        (getNextTask subscr filterTasks w = None \<longleftrightarrow>
           (\<forall>r\<in>set (repoSyncStates w). \<forall>t\<in>set candidates. \<not> outstanding r t))
        \<and> (\<forall>nt. getNextTask subscr filterTasks w = Some nt \<longleftrightarrow>
              (\<exists>i<length ranked.
                 (\<forall>j<i. \<forall>t\<in>set candidates. \<not> outstanding (ranked ! j) t)
                 \<and> (\<exists>k<length candidates.
                       outstanding (ranked ! i) (candidates ! k)
                       \<and> (\<forall>l<k. \<not> outstanding (ranked ! i) (candidates ! l))
                       \<and> nt =
                           \<lparr>task = candidates ! k,
                            repositoryId = repoId (ranked ! i),
                            repository = Some
                              \<lparr>repo_id = repoId (ranked ! i),
                               repo_name = repoName (ranked ! i),
                               full_name = repoFullName (ranked ! i),
                               owner_login = repoOwner (ranked ! i),
                               html_url = repoUrl (ranked ! i),
                               updated_at = repoUpdatedAt (ranked ! i)\<rparr>,
                            cursor =
                              (if unset (columns (ranked ! i) (taskName (candidates ! k) @ ''Cursor''))
                               then None
                               else columns (ranked ! i) (taskName (candidates ! k) @ ''Cursor''))\<rparr>))))
   \<and> mset ranked = mset (repoSyncStates w)
   \<and> (\<forall>i j. i < j \<and> j < length ranked \<longrightarrow>
         (case repoUpdatedAt (ranked ! i) of
            None \<Rightarrow>
              (case repoUpdatedAt (ranked ! j) of
                 None \<Rightarrow> row_id (ranked ! j) \<le> row_id (ranked ! i)
               | Some y \<Rightarrow> True)
          | Some x \<Rightarrow>
              (case repoUpdatedAt (ranked ! j) of
                 None \<Rightarrow> False
               | Some y \<Rightarrow> y < x \<or> (y = x \<and> row_id (ranked ! j) \<le> row_id (ranked ! i)))))"
proof -
  have out: "isOutstanding r t = outstanding r t" for r t
    by (simp add: isOutstanding_def outstanding_def unset_def getStatusKey_def falsy_iff)
  have selected: "repoTask r t =
      \<lparr>task = t, repositoryId = repoId r,
       repository = Some
         \<lparr>repo_id = repoId r, repo_name = repoName r, full_name = repoFullName r,
          owner_login = repoOwner r, html_url = repoUrl r, updated_at = repoUpdatedAt r\<rparr>,
       cursor = (if unset (columns r (taskName t @ ''Cursor'')) then None
                 else columns r (taskName t @ ''Cursor''))\<rparr>" for r t
    by (simp add: repoTask_def orUndefined_def getCursorKey_def falsy_iff unset_def)
  note core = getNextTask_first_outstanding [of subscr filterTasks w]
  have discovery: "subscr ''repositoryStatus'' \<noteq> Some (Str ''complete'') \<longrightarrow>
      getNextTask subscr filterTasks w =
        Some \<lparr>task = TRepository, repositoryId = 0, repository = None,
              cursor = (if unset (subscr ''repositoryCursor'') then None
                        else subscr ''repositoryCursor'')\<rparr>"
    using core unfolding unset_def falsy_iff by (rule conjunct1)
  have rest: "(subscr ''repositoryStatus'' = Some (Str ''complete'') \<longrightarrow>
        (getNextTask subscr filterTasks w = None \<longleftrightarrow>
           (\<forall>r\<in>set (repoSyncStates w). \<forall>t\<in>set candidates. \<not> isOutstanding r t))
        \<and> (\<forall>nt. getNextTask subscr filterTasks w = Some nt \<longleftrightarrow>
              (\<exists>i<length ranked.
                 (\<forall>j<i. \<forall>t\<in>set candidates. \<not> isOutstanding (ranked ! j) t)
                 \<and> (\<exists>k<length candidates.
                       isOutstanding (ranked ! i) (candidates ! k)
                       \<and> (\<forall>l<k. \<not> isOutstanding (ranked ! i) (candidates ! l))
                       \<and> nt = repoTask (ranked ! i) (candidates ! k)))))
   \<and> sorted_wrt ranksBefore ranked
   \<and> mset ranked = mset (repoSyncStates w)"
    using core unfolding ranked_def candidates_def by (rule conjunct2)
  from rest have sel: "subscr ''repositoryStatus'' = Some (Str ''complete'') \<longrightarrow>
        (getNextTask subscr filterTasks w = None \<longleftrightarrow>
           (\<forall>r\<in>set (repoSyncStates w). \<forall>t\<in>set candidates. \<not> isOutstanding r t))
        \<and> (\<forall>nt. getNextTask subscr filterTasks w = Some nt \<longleftrightarrow>
              (\<exists>i<length ranked.
                 (\<forall>j<i. \<forall>t\<in>set candidates. \<not> isOutstanding (ranked ! j) t)
                 \<and> (\<exists>k<length candidates.
                       isOutstanding (ranked ! i) (candidates ! k)
                       \<and> (\<forall>l<k. \<not> isOutstanding (ranked ! i) (candidates ! l))
                       \<and> nt = repoTask (ranked ! i) (candidates ! k))))"
    by (rule conjunct1)
  from rest have sorted: "sorted_wrt ranksBefore ranked" and perm: "mset ranked = mset (repoSyncStates w)"
    by blast+
  have order: "\<forall>i j. i < j \<and> j < length ranked \<longrightarrow>
         (case repoUpdatedAt (ranked ! i) of
            None \<Rightarrow>
              (case repoUpdatedAt (ranked ! j) of
                 None \<Rightarrow> row_id (ranked ! j) \<le> row_id (ranked ! i)
               | Some y \<Rightarrow> True)
          | Some x \<Rightarrow>
              (case repoUpdatedAt (ranked ! j) of
                 None \<Rightarrow> False
               | Some y \<Rightarrow> y < x \<or> (y = x \<and> row_id (ranked ! j) \<le> row_id (ranked ! i))))"
  proof (intro allI impI)
    fix i j
    assume "i < j \<and> j < length ranked"
    then have "ranksBefore (ranked ! i) (ranked ! j)"
      using sorted by (simp add: sorted_wrt_iff_nth_less)
    then show "(case repoUpdatedAt (ranked ! i) of
            None \<Rightarrow>
              (case repoUpdatedAt (ranked ! j) of
                 None \<Rightarrow> row_id (ranked ! j) \<le> row_id (ranked ! i)
               | Some y \<Rightarrow> True)
          | Some x \<Rightarrow>
              (case repoUpdatedAt (ranked ! j) of
                 None \<Rightarrow> False
               | Some y \<Rightarrow> y < x \<or> (y = x \<and> row_id (ranked ! j) \<le> row_id (ranked ! i))))"
      by (simp only: ranksBefore_def)
  qed
  from sel have sel': "subscr ''repositoryStatus'' = Some (Str ''complete'') \<longrightarrow>
        (getNextTask subscr filterTasks w = None \<longleftrightarrow>
           (\<forall>r\<in>set (repoSyncStates w). \<forall>t\<in>set candidates. \<not> outstanding r t))
        \<and> (\<forall>nt. getNextTask subscr filterTasks w = Some nt \<longleftrightarrow>
              (\<exists>i<length ranked.
                 (\<forall>j<i. \<forall>t\<in>set candidates. \<not> outstanding (ranked ! j) t)
                 \<and> (\<exists>k<length candidates.
                       outstanding (ranked ! i) (candidates ! k)
                       \<and> (\<forall>l<k. \<not> outstanding (ranked ! i) (candidates ! l))
                       \<and> nt =
                           \<lparr>task = candidates ! k,
                            repositoryId = repoId (ranked ! i),
                            repository = Some
                              \<lparr>repo_id = repoId (ranked ! i),
                               repo_name = repoName (ranked ! i),
                               full_name = repoFullName (ranked ! i),
                               owner_login = repoOwner (ranked ! i),
                               html_url = repoUrl (ranked ! i),
                               updated_at = repoUpdatedAt (ranked ! i)\<rparr>,
                            cursor =
                              (if unset (columns (ranked ! i) (taskName (candidates ! k) @ ''Cursor''))
                               then None
                               else columns (ranked ! i) (taskName (candidates ! k) @ ''Cursor''))\<rparr>)))"
    unfolding out selected .
  from discovery sel' perm order show ?thesis
    by (intro conjI)
qed

lemma order_ranked: "findAllFromSubscription orderWorld = [rowC, rowA]"
  by (simp add: findAllFromSubscription_def orderWorld_def ranksBefore_def rowA_def rowC_def)

lemma all_candidates: "getTargetTasks None = [TPull, TBranch, TCommit, TBuild, TDeployment]"
  by (simp add: getTargetTasks_def allTaskTypes_def)

theorem getNextTask_selection_witness:
  "discovered ''repositoryStatus'' = Some (Str ''complete'')
   \<and> map repoUpdatedAt (repoSyncStates orderWorld) = [Some 100, Some 300]
   \<and> getNextTask discovered None orderWorld =
       Some \<lparr>task = TCommit, repositoryId = 30,
             repository = Some
               \<lparr>repo_id = 30, repo_name = ''c'', full_name = ''o/c'', owner_login = ''o'',
                html_url = ''https://github.test/o/c'', updated_at = Some 300\<rparr>,
             cursor = Some (Str ''xyz'')\<rparr>
   \<and> getNextTask discovered (Some [TBuild]) exWorld =
       Some \<lparr>task = TBuild, repositoryId = 10,
             repository = Some
               \<lparr>repo_id = 10, repo_name = ''a'', full_name = ''o/a'', owner_login = ''o'',
                html_url = ''https://github.test/o/a'', updated_at = Some 100\<rparr>,
             cursor = None\<rparr>
   \<and> getNextTask discovering None exWorld =
       Some \<lparr>task = TRepository, repositoryId = 0, repository = None,
             cursor = Some (Str ''page2'')\<rparr>"
proof -
  have disc: "discovered ''repositoryStatus'' = Some (Str ''complete'')"
    by (simp add: discovered_def)
  have rows: "map repoUpdatedAt (repoSyncStates orderWorld) = [Some 100, Some 300]"
    by (simp add: orderWorld_def rowA_def rowC_def)
  have first: "getNextTask discovered None orderWorld =
       Some \<lparr>task = TCommit, repositoryId = 30,
             repository = Some
               \<lparr>repo_id = 30, repo_name = ''c'', full_name = ''o/c'', owner_login = ''o'',
                html_url = ''https://github.test/o/c'', updated_at = Some 300\<rparr>,
             cursor = Some (Str ''xyz'')\<rparr>"
    apply (rule iffD2 [OF getNextTask_selection [of discovered None orderWorld,
              THEN conjunct2, THEN conjunct1, THEN mp, OF disc, THEN conjunct2, THEN spec]])
    apply (rule exI [of _ 0])
    apply (simp add: order_ranked all_candidates)
    apply (rule exI [of _ 2])
    apply (simp add: rowC_def less_2_cases_iff)
    done
  have "discovering ''repositoryStatus'' \<noteq> Some (Str ''complete'')"
    by (simp add: discovering_def)
  with getNextTask_selection [of discovering None exWorld, THEN conjunct1]
  have third: "getNextTask discovering None exWorld =
       Some \<lparr>task = TRepository, repositoryId = 0, repository = None,
             cursor = Some (Str ''page2'')\<rparr>"
    by (simp add: discovering_def)
  have second: "getNextTask discovered (Some [TBuild]) exWorld =
       Some \<lparr>task = TBuild, repositoryId = 10,
             repository = Some
               \<lparr>repo_id = 10, repo_name = ''a'', full_name = ''o/a'', owner_login = ''o'',
                html_url = ''https://github.test/o/a'', updated_at = Some 100\<rparr>,
             cursor = None\<rparr>"
    by (simp add: getNextTask_def disc findAllFromSubscription_def exWorld_def ranksBefore_def
        getTargetTasks_def intersection_def allTaskTypes_def isOutstanding_def getStatusKey_def
        getCursorKey_def repoTask_def orUndefined_def rowA_def rowB_def)
  from disc rows first second third show ?thesis
    by (intro conjI)
qed

section \<open>Field routing\<close>

lemma statusKey_repository: "getStatusKey t = ''repositoryStatus'' \<longleftrightarrow> t = TRepository"
  by (cases t) (simp_all add: getStatusKey_def)

lemma statusKey_not_repositoryCursor: "getStatusKey t \<noteq> ''repositoryCursor''"
  by (cases t) (simp_all add: getStatusKey_def)

lemma cursorKey_repository: "getCursorKey t = ''repositoryCursor'' \<longleftrightarrow> t = TRepository"
  by (cases t) (simp_all add: getCursorKey_def)

lemma cursorKey_not_repositoryStatus: "getCursorKey t \<noteq> ''repositoryStatus''"
  by (cases t) (simp_all add: getCursorKey_def)

lemma statusKey_inj: "getStatusKey t = getStatusKey t' \<longleftrightarrow> t = t'"
  by (cases t; cases t') (simp_all add: getStatusKey_def)

lemma cursorKey_inj: "getCursorKey t = getCursorKey t' \<longleftrightarrow> t = t'"
  by (cases t; cases t') (simp_all add: getCursorKey_def)

lemma statusKey_not_cursorKey: "getStatusKey t \<noteq> getCursorKey t'"
  by (cases t; cases t') (simp_all add: getStatusKey_def getCursorKey_def)

lemma statusKey_not_commitFrom: "getStatusKey t \<noteq> ''commitFrom''"
  by (cases t) (simp_all add: getStatusKey_def)

lemma cursorKey_not_commitFrom: "getCursorKey t \<noteq> ''commitFrom''"
  by (cases t) (simp_all add: getCursorKey_def)

lemma statusKey_TRepository: "getStatusKey TRepository = ''repositoryStatus''"
  by (simp add: getStatusKey_def)

lemma cursorKey_TRepository: "getCursorKey TRepository = ''repositoryCursor''"
  by (simp add: getCursorKey_def)

lemma updateRepo_status:
  "updateRepo subscr rid [(getStatusKey t, v)] w =
     (if t = TRepository then subscriptionUpdate subscr [(''repositoryStatus'', v)] w
      else (subscr, updateRepoFromSubscription rid [(getStatusKey t, v)] w))"
  by (simp add: updateRepo_def pick_def omit_def statusKey_repository
      statusKey_not_repositoryCursor statusKey_TRepository)

lemma updateRepo_cursor:
  "updateRepo subscr rid [(getCursorKey t, v)] w =
     (if t = TRepository then subscriptionUpdate subscr [(''repositoryCursor'', v)] w
      else (subscr, updateRepoFromSubscription rid [(getCursorKey t, v)] w))"
  by (simp add: updateRepo_def pick_def omit_def cursorKey_repository
      cursorKey_not_repositoryStatus cursorKey_TRepository)

section \<open>Rate limiting\<close>

text \<open>
  C4: for every RateLimitingError, \<open>handleBackfillError\<close> throws nothing, leaves the store
  as it is, and requests exactly one follow-up, with the delay
  \<open>max (rateLimitReset * 1000 - now) 0\<close>: that delay when it is positive, 0 when the limit
  has already reset.
\<close>

theorem handleBackfillError_rate_limited:
  "handleBackfillError now (RateLimitingError rateLimitReset) dat nextTask w =
     (None, w\<lparr>nextTaskDelaysMs := nextTaskDelaysMs w @ [max (rateLimitReset * 1000 - now) 0]\<rparr>)"
  by (simp add: handleBackfillError_def scheduleNextTask_def Let_def)

theorem handleBackfillError_rate_limited_witness:
  "handleBackfillError 7000 (RateLimitingError 12) message buildTaskA exWorld =
     (None, exWorld\<lparr>nextTaskDelaysMs := [5000]\<rparr>)
   \<and> handleBackfillError 13000 (RateLimitingError 12) message buildTaskA exWorld =
     (None, exWorld\<lparr>nextTaskDelaysMs := [0]\<rparr>)"
  using handleBackfillError_rate_limited [of 7000 12 message buildTaskA exWorld]
    handleBackfillError_rate_limited [of 13000 12 message buildTaskA exWorld]
  by (simp add: exWorld_def)

section \<open>Giving up on a task\<close>

text \<open>
  C9: \<open>markCurrentTaskAsFailedAndContinue\<close> does nothing when the message has no
  Subscription. Otherwise it sets the task's status to failed (in the Subscription for the
  discovery task, in the repository's rows for a category); for the discovery task it then
  sets the Subscription's \<^verbatim>\<open>syncStatus\<close> to FAILED and requests no follow-up; for any other
  task it requests one follow-up with delay 0.
\<close>

theorem markCurrentTaskAsFailedAndContinue_effect:
  "(subscription w = None \<longrightarrow> markCurrentTaskAsFailedAndContinue dat nextTask w = w)
   \<and> (subscription w = Some subscr \<and> task nextTask = TRepository \<longrightarrow>
        markCurrentTaskAsFailedAndContinue dat nextTask w =
          w\<lparr>subscription :=
               Some (subscr(''repositoryStatus'' \<mapsto> Str ''failed'', ''syncStatus'' \<mapsto> Str ''FAILED'')),
            writes := writes w @
               [SubscriptionUpdate [(''repositoryStatus'', Str ''failed'')],
                SubscriptionUpdate [(''syncStatus'', Str ''FAILED'')]]\<rparr>)
   \<and> (subscription w = Some subscr \<and> task nextTask \<noteq> TRepository \<longrightarrow>
        markCurrentTaskAsFailedAndContinue dat nextTask w =
          w\<lparr>repoSyncStates :=
               map (\<lambda>r. if repoId r = repositoryId nextTask
                        then r\<lparr>columns := (columns r)(getStatusKey (task nextTask) \<mapsto> Str ''failed'')\<rparr>
                        else r)
                 (repoSyncStates w),
            nextTaskDelaysMs := nextTaskDelaysMs w @ [0],
            writes := writes w @
               [RepoSyncStateUpdate (repositoryId nextTask)
                  [(getStatusKey (task nextTask), Str ''failed'')]]\<rparr>)"
proof (intro conjI impI)
  assume "subscription w = None"
  then show "markCurrentTaskAsFailedAndContinue dat nextTask w = w"
    by (simp add: markCurrentTaskAsFailedAndContinue_def findSubscriptionForMessage_def)
next
  assume "subscription w = Some subscr \<and> task nextTask = TRepository"
  then show "markCurrentTaskAsFailedAndContinue dat nextTask w =
          w\<lparr>subscription :=
               Some (subscr(''repositoryStatus'' \<mapsto> Str ''failed'', ''syncStatus'' \<mapsto> Str ''FAILED'')),
            writes := writes w @
               [SubscriptionUpdate [(''repositoryStatus'', Str ''failed'')],
                SubscriptionUpdate [(''syncStatus'', Str ''FAILED'')]]\<rparr>"
    by (simp add: markCurrentTaskAsFailedAndContinue_def findSubscriptionForMessage_def
        updateRepo_status subscriptionUpdate_def)
next
  assume "subscription w = Some subscr \<and> task nextTask \<noteq> TRepository"
  then show "markCurrentTaskAsFailedAndContinue dat nextTask w =
          w\<lparr>repoSyncStates :=
               map (\<lambda>r. if repoId r = repositoryId nextTask
                        then r\<lparr>columns := (columns r)(getStatusKey (task nextTask) \<mapsto> Str ''failed'')\<rparr>
                        else r)
                 (repoSyncStates w),
            nextTaskDelaysMs := nextTaskDelaysMs w @ [0],
            writes := writes w @
               [RepoSyncStateUpdate (repositoryId nextTask)
                  [(getStatusKey (task nextTask), Str ''failed'')]]\<rparr>"
    by (simp add: markCurrentTaskAsFailedAndContinue_def findSubscriptionForMessage_def
        updateRepo_status updateRepoFromSubscription_def scheduleNextTask_def)
qed

theorem markCurrentTaskAsFailedAndContinue_effect_witness:
  "nextTaskDelaysMs (markCurrentTaskAsFailedAndContinue message buildTaskA exWorld) = [0]
   \<and> map (\<lambda>r. columns r ''buildStatus'')
        (repoSyncStates (markCurrentTaskAsFailedAndContinue message buildTaskA exWorld))
      = [Some (Str ''failed''), Some (Str ''complete'')]
   \<and> subscription (markCurrentTaskAsFailedAndContinue message buildTaskA exWorld) = Some discovered
   \<and> nextTaskDelaysMs (markCurrentTaskAsFailedAndContinue message discoveryTask exWorld) = []
   \<and> map_option (\<lambda>s. (s ''repositoryStatus'', s ''syncStatus''))
        (subscription (markCurrentTaskAsFailedAndContinue message discoveryTask exWorld))
      = Some (Some (Str ''failed''), Some (Str ''FAILED''))
   \<and> markCurrentTaskAsFailedAndContinue message buildTaskA (exWorld\<lparr>subscription := None\<rparr>)
      = exWorld\<lparr>subscription := None\<rparr>"
proof -
  have sub: "subscription exWorld = Some discovered"
    by (simp add: exWorld_def)
  have a: "task buildTaskA \<noteq> TRepository" "repositoryId buildTaskA = 10"
    "getStatusKey (task buildTaskA) = ''buildStatus''"
    by (simp_all add: buildTaskA_def repoTask_def rowA_def getStatusKey_def)
  have b: "task discoveryTask = TRepository"
    by (simp add: discoveryTask_def)
  have e1: "markCurrentTaskAsFailedAndContinue message buildTaskA exWorld =
      exWorld\<lparr>repoSyncStates :=
               map (\<lambda>r. if repoId r = 10
                        then r\<lparr>columns := (columns r)(''buildStatus'' \<mapsto> Str ''failed'')\<rparr>
                        else r)
                 (repoSyncStates exWorld),
            nextTaskDelaysMs := nextTaskDelaysMs exWorld @ [0],
            writes := writes exWorld @ [RepoSyncStateUpdate 10 [(''buildStatus'', Str ''failed'')]]\<rparr>"
    using markCurrentTaskAsFailedAndContinue_effect [of exWorld message buildTaskA discovered] sub a
    by simp
  have e2: "markCurrentTaskAsFailedAndContinue message discoveryTask exWorld =
      exWorld\<lparr>subscription :=
               Some (discovered(''repositoryStatus'' \<mapsto> Str ''failed'', ''syncStatus'' \<mapsto> Str ''FAILED'')),
            writes := writes exWorld @
               [SubscriptionUpdate [(''repositoryStatus'', Str ''failed'')],
                SubscriptionUpdate [(''syncStatus'', Str ''FAILED'')]]\<rparr>"
    using markCurrentTaskAsFailedAndContinue_effect [of exWorld message discoveryTask discovered] sub b
    by simp
  have e3: "markCurrentTaskAsFailedAndContinue message buildTaskA (exWorld\<lparr>subscription := None\<rparr>)
      = exWorld\<lparr>subscription := None\<rparr>"
    using markCurrentTaskAsFailedAndContinue_effect
      [of "exWorld\<lparr>subscription := None\<rparr>" message buildTaskA discovered]
    by simp
  show ?thesis
    unfolding e1 e2 e3 by (simp add: exWorld_def rowA_def rowB_def)
qed

section \<open>Progress update\<close>

lemma updateRepoSyncFields_repository:
  "updateRepoSyncFields dat c TRepository rid w =
     [(''repositoryStatus'', Str (if c then ''complete'' else ''pending''))]"
  by (simp add: updateRepoSyncFields_def statusKey_TRepository)

lemma updateRepoSyncFields_shape:
  "updateRepoSyncFields dat c t rid w = [(getStatusKey t, Str (if c then ''complete'' else ''pending''))]
   \<or> (\<exists>d. updateRepoSyncFields dat c t rid w =
          [(getStatusKey t, Str (if c then ''complete'' else ''pending'')), (''commitFrom'', Date d)])"
  by (cases "commitsFromDate dat"; cases "findByRepoId rid w")
    (simp_all add: updateRepoSyncFields_def)

lemma updateRepoSyncFields_keys:
  "kv \<in> set (updateRepoSyncFields dat c t rid w) \<Longrightarrow>
     fst kv = getStatusKey t \<or> fst kv = ''commitFrom''"
  using updateRepoSyncFields_shape [of dat c t rid w] by auto

lemma updateRepoSyncFields_not_routed:
  "t \<noteq> TRepository \<Longrightarrow> kv \<in> set (updateRepoSyncFields dat c t rid w) \<Longrightarrow>
     fst kv \<noteq> ''repositoryStatus'' \<and> fst kv \<noteq> ''repositoryCursor''"
  using updateRepoSyncFields_keys [of kv dat c t rid w]
    statusKey_repository [of t] statusKey_not_repositoryCursor [of t]
  by auto

lemma updateRepo_repositoryStatus:
  "updateRepo subscr rid [(''repositoryStatus'', v)] w =
     subscriptionUpdate subscr [(''repositoryStatus'', v)] w"
  by (simp add: updateRepo_def pick_def omit_def)

lemma updateRepo_repositoryCursor:
  "updateRepo subscr rid [(''repositoryCursor'', v)] w =
     subscriptionUpdate subscr [(''repositoryCursor'', v)] w"
  by (simp add: updateRepo_def pick_def omit_def)

lemma updateRepoSyncFields_nonempty: "updateRepoSyncFields dat c t rid w \<noteq> []"
  by (simp add: updateRepoSyncFields_def)

lemma updateRepo_category:
  assumes "t \<noteq> TRepository"
  shows "updateRepo subscr rid (updateRepoSyncFields dat c t rid w) w' =
     (subscr, updateRepoFromSubscription rid (updateRepoSyncFields dat c t rid w) w')"
proof -
  have keys: "\<forall>kv\<in>set (updateRepoSyncFields dat c t rid w).
      fst kv \<notin> set [''repositoryStatus'', ''repositoryCursor'']"
    using updateRepoSyncFields_not_routed [OF assms] by auto
  have "pick (updateRepoSyncFields dat c t rid w) [''repositoryStatus'', ''repositoryCursor''] = []"
    unfolding pick_def using keys by (simp add: filter_empty_conv)
  moreover have "omit (updateRepoSyncFields dat c t rid w) [''repositoryStatus'', ''repositoryCursor'']
      = updateRepoSyncFields dat c t rid w"
    unfolding omit_def using keys by (intro filter_True) simp
  ultimately show ?thesis
    by (simp add: updateRepo_def updateRepoSyncFields_nonempty)
qed

lemma utsc_absent:
  "subscription w = None \<Longrightarrow> updateTaskStatusAndContinue dat p t rid w = w"
  by (simp add: updateTaskStatusAndContinue_def findSubscriptionForMessage_def)

lemma utsc_pending_repository:
  assumes "subscription w = Some subscr" "edges p = Some es" "es \<noteq> []"
  shows "updateTaskStatusAndContinue dat p TRepository rid w =
     w\<lparr>subscription :=
          Some (subscr(''repositoryStatus'' \<mapsto> Str ''pending'', ''repositoryCursor'' \<mapsto> last es)),
       nextTaskDelaysMs := nextTaskDelaysMs w @ [0],
       writes := writes w @
          [SubscriptionUpdate [(''repositoryStatus'', Str ''pending'')],
           SubscriptionUpdate [(''repositoryCursor'', last es)]]\<rparr>"
  using assms
  by (simp add: updateTaskStatusAndContinue_def findSubscriptionForMessage_def
      updateRepoSyncFields_repository updateRepo_repositoryStatus updateRepo_repositoryCursor
      cursorKey_TRepository subscriptionUpdate_def scheduleNextTask_def last_conv_nth)

lemma utsc_pending_category:
  assumes "subscription w = Some subscr" "edges p = Some es" "es \<noteq> []" "t \<noteq> TRepository"
  shows "updateTaskStatusAndContinue dat p t rid w =
     w\<lparr>repoSyncStates :=
          map (\<lambda>r. if repoId r = rid
                   then r\<lparr>columns := (columns r)(getStatusKey t \<mapsto> Str ''pending'',
                                                  getCursorKey t \<mapsto> last es)\<rparr>
                   else r)
            (repoSyncStates w),
       nextTaskDelaysMs := nextTaskDelaysMs w @ [0],
       writes := writes w @
          [RepoSyncStateUpdate rid [(getStatusKey t, Str ''pending'')],
           RepoSyncStateUpdate rid [(getCursorKey t, last es)]]\<rparr>"
proof -
  have fields: "updateRepoSyncFields dat False t rid w = [(getStatusKey t, Str ''pending'')]"
    by (simp add: updateRepoSyncFields_def)
  have rows: "map (\<lambda>r. if repoId r = rid then r\<lparr>columns := (columns r)(getCursorKey t \<mapsto> last es)\<rparr> else r)
       (map (\<lambda>r. if repoId r = rid then r\<lparr>columns := (columns r)(getStatusKey t \<mapsto> Str ''pending'')\<rparr> else r)
          (repoSyncStates w))
     = map (\<lambda>r. if repoId r = rid
                   then r\<lparr>columns := (columns r)(getStatusKey t \<mapsto> Str ''pending'',
                                                  getCursorKey t \<mapsto> last es)\<rparr>
                   else r)
            (repoSyncStates w)"
    by (simp add: comp_def cong: if_cong)
  show ?thesis
    using assms rows
    by (simp add: updateTaskStatusAndContinue_def findSubscriptionForMessage_def fields
        updateRepo_status updateRepo_cursor updateRepoFromSubscription_def scheduleNextTask_def
        last_conv_nth)
qed


lemma map_of_fields_status:
  "map_of (updateRepoSyncFields dat c t rid w) (getStatusKey t) =
     Some (Str (if c then ''complete'' else ''pending''))"
  using updateRepoSyncFields_shape [of dat c t rid w] by auto

lemma map_of_fields_other:
  "k \<noteq> getStatusKey t \<Longrightarrow> k \<noteq> ''commitFrom'' \<Longrightarrow>
     map_of (updateRepoSyncFields dat c t rid w) k = None"
  using updateRepoSyncFields_shape [of dat c t rid w] by auto

lemma getNextTask_frame:
  "s ''repositoryStatus'' = s' ''repositoryStatus'' \<Longrightarrow>
   s ''repositoryCursor'' = s' ''repositoryCursor'' \<Longrightarrow>
   repoSyncStates w = repoSyncStates w' \<Longrightarrow>
   getNextTask s f w = getNextTask s' f w'"
  by (simp add: getNextTask_def findAllFromSubscription_def)

text \<open>The completion path, with its intermediate world named.\<close>

lemma utsc_complete:
  assumes "subscription w = Some subscr" "edges p = None \<or> edges p = Some []"
  shows "updateTaskStatusAndContinue dat p t rid w =
     (if getNextTask (fst (updateRepo subscr rid (updateRepoSyncFields dat True t rid w) w))
           (targetTasks dat) (snd (updateRepo subscr rid (updateRepoSyncFields dat True t rid w) w)) = None
      then snd (subscriptionUpdate (fst (updateRepo subscr rid (updateRepoSyncFields dat True t rid w) w))
                  [(''syncStatus'', Str ''COMPLETE''), (''backfillSince'', getBackfillSince dat)]
                  (snd (updateRepo subscr rid (updateRepoSyncFields dat True t rid w) w)))
      else scheduleNextTask 0 (snd (updateRepo subscr rid (updateRepoSyncFields dat True t rid w) w)))"
  using assms
  by (auto simp: updateTaskStatusAndContinue_def findSubscriptionForMessage_def Let_def)

lemma utsc_complete_rows:
  assumes "subscription w = Some subscr" "edges p = None \<or> edges p = Some []"
  shows "repoSyncStates (updateTaskStatusAndContinue dat p t rid w) =
     (if t = TRepository then repoSyncStates w
      else map (\<lambda>r. if repoId r = rid
                    then r\<lparr>columns := columns r ++ map_of (updateRepoSyncFields dat True t rid w)\<rparr>
                    else r)
             (repoSyncStates w))"
proof (cases "t = TRepository")
  case True
  then show ?thesis
    unfolding utsc_complete [OF assms]
    by (simp add: updateRepoSyncFields_repository updateRepo_repositoryStatus
        subscriptionUpdate_def scheduleNextTask_def)
next
  case False
  then show ?thesis
    unfolding utsc_complete [OF assms]
    by (simp add: updateRepo_category updateRepoFromSubscription_def
        subscriptionUpdate_def scheduleNextTask_def)
qed

lemma utsc_complete_fst:
  "fst (updateRepo subscr rid (updateRepoSyncFields dat True t rid w) w) =
     (if t = TRepository then subscr(''repositoryStatus'' \<mapsto> Str ''complete'') else subscr)"
  by (cases "t = TRepository") (simp_all add: updateRepoSyncFields_repository updateRepo_repositoryStatus
      updateRepo_category subscriptionUpdate_def)

lemma utsc_complete_snd_rows:
  "repoSyncStates (snd (updateRepo subscr rid (updateRepoSyncFields dat True t rid w) w)) =
     (if t = TRepository then repoSyncStates w
      else map (\<lambda>r. if repoId r = rid
                    then r\<lparr>columns := columns r ++ map_of (updateRepoSyncFields dat True t rid w)\<rparr>
                    else r)
             (repoSyncStates w))"
  by (cases "t = TRepository") (simp_all add: updateRepoSyncFields_repository updateRepo_repositoryStatus
      updateRepo_category subscriptionUpdate_def updateRepoFromSubscription_def)

lemma utsc_complete_snd_subscription:
  "subscription w = Some subscr \<Longrightarrow>
   subscription (snd (updateRepo subscr rid (updateRepoSyncFields dat True t rid w) w)) =
     Some (fst (updateRepo subscr rid (updateRepoSyncFields dat True t rid w) w))"
  by (cases "t = TRepository") (simp_all add: updateRepoSyncFields_repository updateRepo_repositoryStatus
      updateRepo_category subscriptionUpdate_def updateRepoFromSubscription_def)

lemma utsc_complete_snd_delays:
  "nextTaskDelaysMs (snd (updateRepo subscr rid (updateRepoSyncFields dat True t rid w) w)) =
     nextTaskDelaysMs w"
  by (cases "t = TRepository") (simp_all add: updateRepoSyncFields_repository updateRepo_repositoryStatus
      updateRepo_category subscriptionUpdate_def updateRepoFromSubscription_def)

section \<open>The completion path\<close>

lemma getTargetTasks_subset: "set (getTargetTasks f) \<subseteq> set allTaskTypes"
  by (cases f) (auto simp: getTargetTasks_def intersection_distinct distinct_allTaskTypes)

lemma getTargetTasks_not_repository: "t \<in> set (getTargetTasks f) \<Longrightarrow> t \<noteq> TRepository"
  using getTargetTasks_subset [of f] by (auto simp: allTaskTypes_def)

lemma set_findAllFromSubscription: "set (findAllFromSubscription w) = set (repoSyncStates w)"
  by (rule mset_eq_setD) (simp add: findAllFromSubscription_def mset_rank)

lemma getNextTask_SomeD:
  assumes "getNextTask s f w = Some nt"
  shows "(s ''repositoryStatus'' \<noteq> Some (Str ''complete'') \<and> task nt = TRepository)
     \<or> (s ''repositoryStatus'' = Some (Str ''complete'')
        \<and> (\<exists>r\<in>set (repoSyncStates w). \<exists>t\<in>set (getTargetTasks f).
              isOutstanding r t \<and> nt = repoTask r t))"
proof (cases "s ''repositoryStatus'' = Some (Str ''complete'')")
  case False
  with assms show ?thesis by (auto simp: getNextTask_def)
next
  case True
  with assms have "firstTask (getTargetTasks f) (findAllFromSubscription w) = Some nt"
    by (simp add: getNextTask_def)
  then obtain i k where ik: "i < length (findAllFromSubscription w)" "k < length (getTargetTasks f)"
    and out: "isOutstanding (findAllFromSubscription w ! i) (getTargetTasks f ! k)"
    and nt: "nt = repoTask (findAllFromSubscription w ! i) (getTargetTasks f ! k)"
    unfolding firstTask_Some by blast
  have "findAllFromSubscription w ! i \<in> set (findAllFromSubscription w)"
    "getTargetTasks f ! k \<in> set (getTargetTasks f)"
    using ik by simp_all
  with out nt have "\<exists>r\<in>set (findAllFromSubscription w). \<exists>t\<in>set (getTargetTasks f).
      isOutstanding r t \<and> nt = repoTask r t"
    by (intro bexI [of _ "findAllFromSubscription w ! i"] bexI [of _ "getTargetTasks f ! k"]) simp_all
  with True show ?thesis
    by (simp add: set_findAllFromSubscription)
qed

lemma complete_not_outstanding:
  "columns r (getStatusKey t) = Some (Str ''complete'') \<Longrightarrow> \<not> isOutstanding r t"
  by (simp add: isOutstanding_def)

lemma failed_not_outstanding:
  "columns r (getStatusKey t) = Some (Str ''failed'') \<Longrightarrow> \<not> isOutstanding r t"
  by (simp add: isOutstanding_def)

lemma completion_effect:
  assumes sub: "subscription w = Some subscr" and fin: "edges p = None \<or> edges p = Some []"
  shows "\<exists>subscr'. subscription (updateTaskStatusAndContinue dat p t rid w) = Some subscr'
     \<and> subscr' ''repositoryStatus'' =
         (if t = TRepository then Some (Str ''complete'') else subscr ''repositoryStatus'')
     \<and> subscr' ''repositoryCursor'' = subscr ''repositoryCursor''
     \<and> repoSyncStates (updateTaskStatusAndContinue dat p t rid w) =
         (if t = TRepository then repoSyncStates w
          else map (\<lambda>r. if repoId r = rid
                        then r\<lparr>columns := columns r ++ map_of (updateRepoSyncFields dat True t rid w)\<rparr>
                        else r)
                 (repoSyncStates w))
     \<and> (getNextTask subscr' (targetTasks dat) (updateTaskStatusAndContinue dat p t rid w) = None \<longrightarrow>
          subscr' ''syncStatus'' = Some (Str ''COMPLETE'')
          \<and> nextTaskDelaysMs (updateTaskStatusAndContinue dat p t rid w) = nextTaskDelaysMs w)
     \<and> (getNextTask subscr' (targetTasks dat) (updateTaskStatusAndContinue dat p t rid w) \<noteq> None \<longrightarrow>
          nextTaskDelaysMs (updateTaskStatusAndContinue dat p t rid w) = nextTaskDelaysMs w @ [0])"
proof -
  define F where "F = updateRepoSyncFields dat True t rid w"
  define s1 where "s1 = fst (updateRepo subscr rid F w)"
  define w1 where "w1 = snd (updateRepo subscr rid F w)"
  define W where "W = updateTaskStatusAndContinue dat p t rid w"
  have s1: "s1 = (if t = TRepository then subscr(''repositoryStatus'' \<mapsto> Str ''complete'') else subscr)"
    unfolding s1_def F_def by (rule utsc_complete_fst)
  have w1_sub: "subscription w1 = Some s1"
    unfolding w1_def s1_def F_def using sub by (rule utsc_complete_snd_subscription)
  have w1_rows: "repoSyncStates w1 =
         (if t = TRepository then repoSyncStates w
          else map (\<lambda>r. if repoId r = rid then r\<lparr>columns := columns r ++ map_of F\<rparr> else r)
                 (repoSyncStates w))"
    unfolding w1_def F_def by (rule utsc_complete_snd_rows)
  have w1_delays: "nextTaskDelaysMs w1 = nextTaskDelaysMs w"
    unfolding w1_def F_def by (rule utsc_complete_snd_delays)
  have W: "W = (if getNextTask s1 (targetTasks dat) w1 = None
      then snd (subscriptionUpdate s1
                  [(''syncStatus'', Str ''COMPLETE''), (''backfillSince'', getBackfillSince dat)] w1)
      else scheduleNextTask 0 w1)"
    unfolding W_def s1_def w1_def F_def by (rule utsc_complete [OF sub fin])
  have goal: "\<exists>subscr'. subscription W = Some subscr'
     \<and> subscr' ''repositoryStatus'' =
         (if t = TRepository then Some (Str ''complete'') else subscr ''repositoryStatus'')
     \<and> subscr' ''repositoryCursor'' = subscr ''repositoryCursor''
     \<and> repoSyncStates W =
         (if t = TRepository then repoSyncStates w
          else map (\<lambda>r. if repoId r = rid then r\<lparr>columns := columns r ++ map_of F\<rparr> else r)
                 (repoSyncStates w))
     \<and> (getNextTask subscr' (targetTasks dat) W = None \<longrightarrow>
          subscr' ''syncStatus'' = Some (Str ''COMPLETE'')
          \<and> nextTaskDelaysMs W = nextTaskDelaysMs w)
     \<and> (getNextTask subscr' (targetTasks dat) W \<noteq> None \<longrightarrow>
          nextTaskDelaysMs W = nextTaskDelaysMs w @ [0])"
  proof (cases "getNextTask s1 (targetTasks dat) w1 = None")
    case True
    define s2 where "s2 = s1(''backfillSince'' \<mapsto> getBackfillSince dat, ''syncStatus'' \<mapsto> Str ''COMPLETE'')"
    have W': "W = snd (subscriptionUpdate s1
                  [(''syncStatus'', Str ''COMPLETE''), (''backfillSince'', getBackfillSince dat)] w1)"
      using W True by simp
    have Wsub: "subscription W = Some s2"
      unfolding W' using w1_sub by (simp add: subscriptionUpdate_def s2_def)
    have Wrows: "repoSyncStates W = repoSyncStates w1"
      unfolding W' by (simp add: subscriptionUpdate_def)
    have Wdelays: "nextTaskDelaysMs W = nextTaskDelaysMs w"
      unfolding W' using w1_delays by (simp add: subscriptionUpdate_def)
    have "getNextTask s2 (targetTasks dat) W = getNextTask s1 (targetTasks dat) w1"
      by (rule getNextTask_frame) (simp_all add: s2_def Wrows)
    with True have nxt: "getNextTask s2 (targetTasks dat) W = None" by simp
    have s2: "s2 ''repositoryStatus'' =
         (if t = TRepository then Some (Str ''complete'') else subscr ''repositoryStatus'')"
      "s2 ''repositoryCursor'' = subscr ''repositoryCursor''"
      "s2 ''syncStatus'' = Some (Str ''COMPLETE'')"
      by (simp_all add: s2_def s1)
    show ?thesis
      apply (rule exI [of _ s2])
      apply (intro conjI)
           apply (rule Wsub)
          apply (rule s2(1))
         apply (rule s2(2))
        apply (simp only: Wrows w1_rows)
       apply (simp only: nxt s2(3) Wdelays simp_thms)
      apply (simp only: nxt simp_thms)
      done
  next
    case False
    have W': "W = scheduleNextTask 0 w1"
      using W False by (simp del: not_None_eq)
    have Wsub: "subscription W = Some s1"
      unfolding W' using w1_sub by (simp add: scheduleNextTask_def)
    have Wrows: "repoSyncStates W = repoSyncStates w1"
      unfolding W' by (simp add: scheduleNextTask_def)
    have Wdelays: "nextTaskDelaysMs W = nextTaskDelaysMs w @ [0]"
      unfolding W' using w1_delays by (simp add: scheduleNextTask_def)
    have "getNextTask s1 (targetTasks dat) W = getNextTask s1 (targetTasks dat) w1"
      by (rule getNextTask_frame) (simp_all add: Wrows)
    with False have nxt: "getNextTask s1 (targetTasks dat) W \<noteq> None" by simp
    have s1': "s1 ''repositoryStatus'' =
         (if t = TRepository then Some (Str ''complete'') else subscr ''repositoryStatus'')"
      "s1 ''repositoryCursor'' = subscr ''repositoryCursor''"
      by (simp_all add: s1)
    show ?thesis
      apply (rule exI [of _ s1])
      apply (intro conjI)
           apply (rule Wsub)
          apply (rule s1'(1))
         apply (rule s1'(2))
        apply (simp only: Wrows w1_rows)
       using nxt apply blast
      apply (simp only: Wdelays simp_thms)
      done
  qed
  then show ?thesis
    unfolding W_def F_def .
qed

section \<open>Errors of the upstream client\<close>

lemma handleBackfillError_client_error:
  assumes "instanceofGithubClientError err" "\<forall>r. err \<noteq> RateLimitingError r"
  shows "handleBackfillError now err dat nextTask w =
     (None, updateTaskStatusAndContinue dat \<lparr>edges = Some []\<rparr> (task nextTask)
              (repositoryId nextTask) w)"
  using assms by (cases err) (simp_all add: handleBackfillError_def truthyFunction_def)

lemma reportsNotFound_not_rate_limited: "reportsNotFound err \<Longrightarrow> err \<noteq> RateLimitingError r"
  by (auto simp: reportsNotFound_def)

lemma merged_row_status:
  "(columns r ++ map_of (updateRepoSyncFields dat True t rid w)) (getStatusKey t) =
     Some (Str ''complete'')"
  by (simp add: map_add_def map_of_fields_status)

lemma merged_row_cursor:
  "(columns r ++ map_of (updateRepoSyncFields dat True t rid w)) (getCursorKey c) =
     columns r (getCursorKey c)"
proof -
  have "getCursorKey c \<noteq> getStatusKey t"
    using statusKey_not_cursorKey [of t c] by simp
  then have "map_of (updateRepoSyncFields dat True t rid w) (getCursorKey c) = None"
    by (rule map_of_fields_other) (rule cursorKey_not_commitFrom)
  then show ?thesis by (simp add: map_add_def)
qed

lemma completed_pair_not_selected:
  assumes rows: "repoSyncStates W =
         (if t = TRepository then repoSyncStates w
          else map (\<lambda>r. if repoId r = rid
                        then r\<lparr>columns := columns r ++ map_of (updateRepoSyncFields dat True t rid w)\<rparr>
                        else r)
                 (repoSyncStates w))"
    and st: "s ''repositoryStatus'' =
         (if t = TRepository then Some (Str ''complete'') else s0 ''repositoryStatus'')"
    and sel: "getNextTask s f W = Some nt"
  shows "\<not> (task nt = t \<and> repositoryId nt = rid)"
proof
  assume same: "task nt = t \<and> repositoryId nt = rid"
  from getNextTask_SomeD [OF sel] show False
  proof (elim disjE conjE bexE)
    assume "s ''repositoryStatus'' \<noteq> Some (Str ''complete'')" "task nt = TRepository"
    with same st show False by simp
  next
    fix r t0
    assume r: "r \<in> set (repoSyncStates W)" and t0: "t0 \<in> set (getTargetTasks f)"
      and out: "isOutstanding r t0" and nt: "nt = repoTask r t0"
    from same nt have eq: "t0 = t" "repoId r = rid"
      by (simp_all add: repoTask_def)
    with t0 have "t \<noteq> TRepository"
      using getTargetTasks_not_repository by blast
    with rows r obtain r0 where "r0 \<in> set (repoSyncStates w)"
      and r0: "r = (if repoId r0 = rid
                    then r0\<lparr>columns := columns r0 ++ map_of (updateRepoSyncFields dat True t rid w)\<rparr>
                    else r0)"
      by auto
    with eq have "r = r0\<lparr>columns := columns r0 ++ map_of (updateRepoSyncFields dat True t rid w)\<rparr>"
      by (cases "repoId r0 = rid") auto
    then have "columns r (getStatusKey t) = Some (Str ''complete'')"
      by (simp add: merged_row_status)
    then have "\<not> isOutstanding r t"
      by (rule complete_not_outstanding)
    with out eq show False by simp
  qed
qed

text \<open>
  C3: for every GitHub client error that reports that the repository no longer exists (a 404
  status or the GraphQL not-found marker), \<open>handleBackfillError\<close> throws nothing and runs
  the completion path with zero edges for the current task. Where the Subscription exists,
  the task's status becomes complete (in the Subscription for discovery, in the rows of that
  repository for a category), no cursor column changes, every other row is as before, and
  continuation is evaluated: if no task is left the Subscription is marked COMPLETE and no
  follow-up is requested; otherwise one follow-up with delay 0 is requested and the next
  selection is another task than the one completed.
\<close>

theorem handleBackfillError_not_found:
  assumes "instanceofGithubClientError err" and "reportsNotFound err"
  shows "handleBackfillError now err dat nextTask w =
      (None, updateTaskStatusAndContinue dat \<lparr>edges = Some []\<rparr> (task nextTask)
               (repositoryId nextTask) w)
    \<and> (\<forall>subscr. subscription w = Some subscr \<longrightarrow>
         (\<exists>subscr'. subscription (snd (handleBackfillError now err dat nextTask w)) = Some subscr'
            \<and> (task nextTask = TRepository \<longrightarrow>
                 subscr' ''repositoryStatus'' = Some (Str ''complete'')
                 \<and> repoSyncStates (snd (handleBackfillError now err dat nextTask w)) = repoSyncStates w)
            \<and> subscr' ''repositoryCursor'' = subscr ''repositoryCursor''
            \<and> length (repoSyncStates (snd (handleBackfillError now err dat nextTask w)))
                = length (repoSyncStates w)
            \<and> (task nextTask \<noteq> TRepository \<longrightarrow>
                 (\<forall>i<length (repoSyncStates w).
                    (repoId (repoSyncStates w ! i) = repositoryId nextTask \<longrightarrow>
                       columns (repoSyncStates (snd (handleBackfillError now err dat nextTask w)) ! i)
                         (getStatusKey (task nextTask)) = Some (Str ''complete'')
                       \<and> (\<forall>c. columns (repoSyncStates (snd (handleBackfillError now err dat nextTask w)) ! i)
                                 (getCursorKey c)
                               = columns (repoSyncStates w ! i) (getCursorKey c)))
                    \<and> (repoId (repoSyncStates w ! i) \<noteq> repositoryId nextTask \<longrightarrow>
                         repoSyncStates (snd (handleBackfillError now err dat nextTask w)) ! i
                           = repoSyncStates w ! i)))
            \<and> (getNextTask subscr' (targetTasks dat) (snd (handleBackfillError now err dat nextTask w)) = None \<longrightarrow>
                 subscr' ''syncStatus'' = Some (Str ''COMPLETE'')
                 \<and> nextTaskDelaysMs (snd (handleBackfillError now err dat nextTask w)) = nextTaskDelaysMs w)
            \<and> (\<forall>nt. getNextTask subscr' (targetTasks dat) (snd (handleBackfillError now err dat nextTask w)) = Some nt \<longrightarrow>
                 nextTaskDelaysMs (snd (handleBackfillError now err dat nextTask w)) = nextTaskDelaysMs w @ [0]
                 \<and> \<not> (task nt = task nextTask \<and> repositoryId nt = repositoryId nextTask))))"
proof -
  define t where "t = task nextTask"
  define rid where "rid = repositoryId nextTask"
  define W where "W = updateTaskStatusAndContinue dat \<lparr>edges = Some []\<rparr> t rid w"
  have run: "handleBackfillError now err dat nextTask w = (None, W)"
    unfolding W_def t_def rid_def
    using assms reportsNotFound_not_rate_limited
    by (intro handleBackfillError_client_error) auto
  have eff: "\<exists>subscr'. subscription W = Some subscr'
            \<and> (t = TRepository \<longrightarrow>
                 subscr' ''repositoryStatus'' = Some (Str ''complete'')
                 \<and> repoSyncStates W = repoSyncStates w)
            \<and> subscr' ''repositoryCursor'' = subscr ''repositoryCursor''
            \<and> length (repoSyncStates W) = length (repoSyncStates w)
            \<and> (t \<noteq> TRepository \<longrightarrow>
                 (\<forall>i<length (repoSyncStates w).
                    (repoId (repoSyncStates w ! i) = rid \<longrightarrow>
                       columns (repoSyncStates W ! i) (getStatusKey t) = Some (Str ''complete'')
                       \<and> (\<forall>c. columns (repoSyncStates W ! i) (getCursorKey c)
                               = columns (repoSyncStates w ! i) (getCursorKey c)))
                    \<and> (repoId (repoSyncStates w ! i) \<noteq> rid \<longrightarrow>
                         repoSyncStates W ! i = repoSyncStates w ! i)))
            \<and> (getNextTask subscr' (targetTasks dat) W = None \<longrightarrow>
                 subscr' ''syncStatus'' = Some (Str ''COMPLETE'')
                 \<and> nextTaskDelaysMs W = nextTaskDelaysMs w)
            \<and> (\<forall>nt. getNextTask subscr' (targetTasks dat) W = Some nt \<longrightarrow>
                 nextTaskDelaysMs W = nextTaskDelaysMs w @ [0]
                 \<and> \<not> (task nt = t \<and> repositoryId nt = rid))"
    if sub: "subscription w = Some subscr" for subscr
  proof -
    have fin: "edges \<lparr>edges = Some []\<rparr> = None \<or> edges \<lparr>edges = Some []\<rparr> = Some []"
      by simp
    have "\<exists>subscr'. subscription W = Some subscr'
     \<and> subscr' ''repositoryStatus'' =
         (if t = TRepository then Some (Str ''complete'') else subscr ''repositoryStatus'')
     \<and> subscr' ''repositoryCursor'' = subscr ''repositoryCursor''
     \<and> repoSyncStates W =
         (if t = TRepository then repoSyncStates w
          else map (\<lambda>r. if repoId r = rid
                        then r\<lparr>columns := columns r ++ map_of (updateRepoSyncFields dat True t rid w)\<rparr>
                        else r)
                 (repoSyncStates w))
     \<and> (getNextTask subscr' (targetTasks dat) W = None \<longrightarrow>
          subscr' ''syncStatus'' = Some (Str ''COMPLETE'')
          \<and> nextTaskDelaysMs W = nextTaskDelaysMs w)
     \<and> (getNextTask subscr' (targetTasks dat) W \<noteq> None \<longrightarrow>
          nextTaskDelaysMs W = nextTaskDelaysMs w @ [0])"
      unfolding W_def by (rule completion_effect [OF sub fin])
    then obtain subscr' where s': "subscription W = Some subscr'"
      and st: "subscr' ''repositoryStatus'' =
         (if t = TRepository then Some (Str ''complete'') else subscr ''repositoryStatus'')"
      and cu: "subscr' ''repositoryCursor'' = subscr ''repositoryCursor''"
      and rows: "repoSyncStates W =
         (if t = TRepository then repoSyncStates w
          else map (\<lambda>r. if repoId r = rid
                        then r\<lparr>columns := columns r ++ map_of (updateRepoSyncFields dat True t rid w)\<rparr>
                        else r)
                 (repoSyncStates w))"
      and none: "getNextTask subscr' (targetTasks dat) W = None \<longrightarrow>
          subscr' ''syncStatus'' = Some (Str ''COMPLETE'')
          \<and> nextTaskDelaysMs W = nextTaskDelaysMs w"
      and some: "getNextTask subscr' (targetTasks dat) W \<noteq> None \<longrightarrow>
          nextTaskDelaysMs W = nextTaskDelaysMs w @ [0]"
      by (elim exE conjE)
    have len: "length (repoSyncStates W) = length (repoSyncStates w)"
      using rows by simp
    have cat: "(repoId (repoSyncStates w ! i) = rid \<longrightarrow>
                       columns (repoSyncStates W ! i) (getStatusKey t) = Some (Str ''complete'')
                       \<and> (\<forall>c. columns (repoSyncStates W ! i) (getCursorKey c)
                               = columns (repoSyncStates w ! i) (getCursorKey c)))
                    \<and> (repoId (repoSyncStates w ! i) \<noteq> rid \<longrightarrow>
                         repoSyncStates W ! i = repoSyncStates w ! i)"
      if "t \<noteq> TRepository" "i < length (repoSyncStates w)" for i
      using that rows by (simp add: merged_row_status merged_row_cursor)
    have pair: "nextTaskDelaysMs W = nextTaskDelaysMs w @ [0]
                 \<and> \<not> (task nt = t \<and> repositoryId nt = rid)"
      if "getNextTask subscr' (targetTasks dat) W = Some nt" for nt
      using that some
        completed_pair_not_selected [where W = W and t = t and rid = rid and w = w and dat = dat
          and s = subscr' and ?s0.0 = subscr and f = "targetTasks dat" and nt = nt, OF rows st that]
      by simp
    have disc: "t = TRepository \<longrightarrow>
                 subscr' ''repositoryStatus'' = Some (Str ''complete'')
                 \<and> repoSyncStates W = repoSyncStates w"
      using st rows by simp
    show ?thesis
      by (intro exI [of _ subscr'] conjI s' disc cu len none allI impI cat pair)
  qed
  show ?thesis
    unfolding run snd_conv t_def [symmetric] rid_def [symmetric]
  proof (intro conjI allI impI)
    show "(None, W) = (None, updateTaskStatusAndContinue dat \<lparr>edges = Some []\<rparr> t rid w)"
      by (simp add: W_def)
  qed (rule eff)
qed


lemma ex_branch_completed:
  "updateTaskStatusAndContinue message \<lparr>edges = Some []\<rparr> TBranch 10 exWorld =
     exWorld\<lparr>repoSyncStates :=
                [rowA\<lparr>columns := (columns rowA)(''branchStatus'' \<mapsto> Str ''complete'')\<rparr>, rowB],
              nextTaskDelaysMs := [0],
              writes := [RepoSyncStateUpdate 10 [(''branchStatus'', Str ''complete'')]]\<rparr>"
proof -
  have fields: "updateRepoSyncFields message True TBranch 10 exWorld =
      [(''branchStatus'', Str ''complete'')]"
    by (simp add: updateRepoSyncFields_def getStatusKey_def)
  have upd: "updateRepo discovered 10 [(''branchStatus'', Str ''complete'')] exWorld =
      (discovered,
       exWorld\<lparr>repoSyncStates :=
                [rowA\<lparr>columns := (columns rowA)(''branchStatus'' \<mapsto> Str ''complete'')\<rparr>, rowB],
              writes := [RepoSyncStateUpdate 10 [(''branchStatus'', Str ''complete'')]]\<rparr>)"
    by (simp add: updateRepo_def pick_def omit_def updateRepoFromSubscription_def exWorld_def
        rowA_def rowB_def)
  have nxt: "getNextTask discovered None
       (exWorld\<lparr>repoSyncStates :=
                [rowA\<lparr>columns := (columns rowA)(''branchStatus'' \<mapsto> Str ''complete'')\<rparr>, rowB],
              writes := [RepoSyncStateUpdate 10 [(''branchStatus'', Str ''complete'')]]\<rparr>) \<noteq> None"
    by (simp add: getNextTask_def discovered_def findAllFromSubscription_def ranksBefore_def
        rowA_def rowB_def getTargetTasks_def allTaskTypes_def isOutstanding_def getStatusKey_def)
  have sub: "subscription exWorld = Some discovered" "targetTasks message = None"
    by (simp_all add: exWorld_def message_def)
  show ?thesis
    using nxt
    by (simp add: updateTaskStatusAndContinue_def findSubscriptionForMessage_def sub fields upd
        scheduleNextTask_def del: not_None_eq) (simp add: exWorld_def)
qed

theorem handleBackfillError_not_found_witness:
  "instanceofGithubClientError (GithubClientError (Some 404))
   \<and> reportsNotFound (GithubClientError (Some 404))
   \<and> handleBackfillError 0 (GithubClientError (Some 404)) message branchTaskA exWorld =
       (None,
        exWorld\<lparr>repoSyncStates :=
                   [rowA\<lparr>columns := (columns rowA)(''branchStatus'' \<mapsto> Str ''complete'')\<rparr>, rowB],
                 nextTaskDelaysMs := [0],
                 writes := [RepoSyncStateUpdate 10 [(''branchStatus'', Str ''complete'')]]\<rparr>)"
proof -
  have a: "instanceofGithubClientError (GithubClientError (Some 404))"
    and b: "reportsNotFound (GithubClientError (Some 404))"
    by (simp_all add: reportsNotFound_def)
  have t: "task branchTaskA = TBranch" "repositoryId branchTaskA = 10"
    by (simp_all add: branchTaskA_def repoTask_def rowA_def)
  from handleBackfillError_not_found [OF a b, of 0 message branchTaskA exWorld]
  have "handleBackfillError 0 (GithubClientError (Some 404)) message branchTaskA exWorld =
      (None, updateTaskStatusAndContinue message \<lparr>edges = Some []\<rparr> TBranch 10 exWorld)"
    unfolding t by (rule conjunct1)
  with a b show ?thesis
    by (simp only: ex_branch_completed simp_thms)
qed

lemma handleBackfillError_other_error:
  "handleBackfillError now (OtherError m) dat nextTask w =
     (Some (TaskError nextTask (OtherError m)), w)"
  by (simp add: handleBackfillError_def cloneDeep_def)

text \<open>
  C1: an error that is neither rate-limiting nor not-found is to be wrapped in a TaskError
  and thrown again. That holds for an error that is not a GitHub client error
  (\<open>handleBackfillError_other_error\<close>), but not for a GitHub client error without a
  not-found status: \<open>isNotFoundGithubError(err)\<close> is a function value, so the branch for
  deleted repositories is taken for it as well. At a client error with status 500 the branch
  task is marked complete and a follow-up is requested; nothing is thrown.
\<close>

theorem handleBackfillError_server_error_completes:
  "\<not> reportsNotFound (GithubClientError (Some 500))
   \<and> handleBackfillError 0 (GithubClientError (Some 500)) message branchTaskA exWorld =
       (None,
        exWorld\<lparr>repoSyncStates :=
                   [rowA\<lparr>columns := (columns rowA)(''branchStatus'' \<mapsto> Str ''complete'')\<rparr>, rowB],
                 nextTaskDelaysMs := [0],
                 writes := [RepoSyncStateUpdate 10 [(''branchStatus'', Str ''complete'')]]\<rparr>)"
proof -
  have t: "task branchTaskA = TBranch" "repositoryId branchTaskA = 10"
    by (simp_all add: branchTaskA_def repoTask_def rowA_def)
  have "handleBackfillError 0 (GithubClientError (Some 500)) message branchTaskA exWorld =
      (None, updateTaskStatusAndContinue message \<lparr>edges = Some []\<rparr> TBranch 10 exWorld)"
    by (simp add: handleBackfillError_client_error t)
  moreover have "\<not> reportsNotFound (GithubClientError (Some 500))"
    by (simp add: reportsNotFound_def)
  ultimately show ?thesis
    by (simp only: ex_branch_completed simp_thms)
qed

section \<open>The commit floor\<close>















section \<open>The field merges of a progress update\<close>

lemma utsc_complete_snd_writes:
  "writes (snd (updateRepo subscr rid (updateRepoSyncFields dat True t rid w) w)) =
     writes w @ [if t = TRepository
                 then SubscriptionUpdate (updateRepoSyncFields dat True t rid w)
                 else RepoSyncStateUpdate rid (updateRepoSyncFields dat True t rid w)]"
  by (cases "t = TRepository") (simp_all add: updateRepoSyncFields_repository updateRepo_repositoryStatus
      updateRepo_category subscriptionUpdate_def updateRepoFromSubscription_def)

lemma utsc_complete_writes:
  assumes "subscription w = Some subscr" "edges p = None \<or> edges p = Some []"
  shows "\<exists>rest. writes (updateTaskStatusAndContinue dat p t rid w) =
           writes w @ (if t = TRepository
                       then SubscriptionUpdate (updateRepoSyncFields dat True t rid w)
                       else RepoSyncStateUpdate rid (updateRepoSyncFields dat True t rid w)) # rest
         \<and> (rest = []
            \<or> rest = [SubscriptionUpdate [(''syncStatus'', Str ''COMPLETE''),
                                          (''backfillSince'', getBackfillSince dat)]])"
  unfolding utsc_complete [OF assms]
  by (simp add: utsc_complete_snd_writes subscriptionUpdate_def scheduleNextTask_def
      del: not_None_eq)

lemma completed_fields_shape:
  "updateRepoSyncFields dat True t rid w = [(getStatusKey t, Str ''complete'')]
   \<or> (\<exists>d. t = TCommit
         \<and> updateRepoSyncFields dat True t rid w =
             [(getStatusKey t, Str ''complete''), (''commitFrom'', Date d)])"
  by (cases "t = TCommit"; cases "commitsFromDate dat"; cases "findByRepoId rid w")
    (simp_all add: updateRepoSyncFields_def)

text \<open>
  C6, as the code has it: where the Subscription exists, \<open>updateTaskStatusAndContinue\<close>
  persists the status change as one field merge (with \<^verbatim>\<open>commitFrom\<close> in the same merge when
  the commit floor is lowered) and, when the task is not complete, the advanced cursor (the
  cursor of the last edge) as a second merge that follows the first. Each merge goes to the
  owner of its field: \<^verbatim>\<open>repositoryStatus\<close> and \<^verbatim>\<open>repositoryCursor\<close> to the Subscription, every
  category field to the RepoSyncState rows of the repository. On the completion path the
  only later merge is the Subscription's COMPLETE mark.
\<close>

theorem updateTaskStatusAndContinue_merges:
  assumes "subscription w = Some subscr"
  shows "(\<forall>es. edges p = Some es \<and> es \<noteq> [] \<longrightarrow>
      updateTaskStatusAndContinue dat p t rid w =
        (if t = TRepository
         then w\<lparr>subscription :=
                  Some (subscr(''repositoryStatus'' \<mapsto> Str ''pending'', ''repositoryCursor'' \<mapsto> last es)),
                nextTaskDelaysMs := nextTaskDelaysMs w @ [0],
                writes := writes w @
                  [SubscriptionUpdate [(''repositoryStatus'', Str ''pending'')],
                   SubscriptionUpdate [(''repositoryCursor'', last es)]]\<rparr>
         else w\<lparr>repoSyncStates :=
                  map (\<lambda>r. if repoId r = rid
                            then r\<lparr>columns := (columns r)(getStatusKey t \<mapsto> Str ''pending'',
                                                           getCursorKey t \<mapsto> last es)\<rparr>
                            else r)
                    (repoSyncStates w),
                nextTaskDelaysMs := nextTaskDelaysMs w @ [0],
                writes := writes w @
                  [RepoSyncStateUpdate rid [(getStatusKey t, Str ''pending'')],
                   RepoSyncStateUpdate rid [(getCursorKey t, last es)]]\<rparr>))
   \<and> (edges p = None \<or> edges p = Some [] \<longrightarrow>
        (\<exists>rest. writes (updateTaskStatusAndContinue dat p t rid w) =
             writes w @ (if t = TRepository
                         then SubscriptionUpdate (updateRepoSyncFields dat True t rid w)
                         else RepoSyncStateUpdate rid (updateRepoSyncFields dat True t rid w)) # rest
           \<and> (rest = []
              \<or> rest = [SubscriptionUpdate [(''syncStatus'', Str ''COMPLETE''),
                                            (''backfillSince'', getBackfillSince dat)]]))
        \<and> (updateRepoSyncFields dat True t rid w = [(getStatusKey t, Str ''complete'')]
           \<or> (\<exists>d. t = TCommit
                 \<and> updateRepoSyncFields dat True t rid w =
                     [(getStatusKey t, Str ''complete''), (''commitFrom'', Date d)]))
        \<and> repoSyncStates (updateTaskStatusAndContinue dat p t rid w) =
            (if t = TRepository then repoSyncStates w
             else map (\<lambda>r. if repoId r = rid
                           then r\<lparr>columns := columns r ++ map_of (updateRepoSyncFields dat True t rid w)\<rparr>
                           else r)
                    (repoSyncStates w))
        \<and> (\<exists>subscr'. subscription (updateTaskStatusAndContinue dat p t rid w) = Some subscr'
              \<and> subscr' ''repositoryStatus'' =
                  (if t = TRepository then Some (Str ''complete'') else subscr ''repositoryStatus'')
              \<and> subscr' ''repositoryCursor'' = subscr ''repositoryCursor''))"
proof (intro conjI allI impI)
  fix es
  assume "edges p = Some es \<and> es \<noteq> []"
  then have es: "edges p = Some es" "es \<noteq> []"
    by simp_all
  show "updateTaskStatusAndContinue dat p t rid w =
        (if t = TRepository
         then w\<lparr>subscription :=
                  Some (subscr(''repositoryStatus'' \<mapsto> Str ''pending'', ''repositoryCursor'' \<mapsto> last es)),
                nextTaskDelaysMs := nextTaskDelaysMs w @ [0],
                writes := writes w @
                  [SubscriptionUpdate [(''repositoryStatus'', Str ''pending'')],
                   SubscriptionUpdate [(''repositoryCursor'', last es)]]\<rparr>
         else w\<lparr>repoSyncStates :=
                  map (\<lambda>r. if repoId r = rid
                            then r\<lparr>columns := (columns r)(getStatusKey t \<mapsto> Str ''pending'',
                                                           getCursorKey t \<mapsto> last es)\<rparr>
                            else r)
                    (repoSyncStates w),
                nextTaskDelaysMs := nextTaskDelaysMs w @ [0],
                writes := writes w @
                  [RepoSyncStateUpdate rid [(getStatusKey t, Str ''pending'')],
                   RepoSyncStateUpdate rid [(getCursorKey t, last es)]]\<rparr>)"
  proof (cases "t = TRepository")
    case True
    then show ?thesis
      using utsc_pending_repository [OF assms es] by simp
  next
    case False
    then show ?thesis
      using utsc_pending_category [OF assms es False] by simp
  qed
next
  assume fin: "edges p = None \<or> edges p = Some []"
  show "\<exists>rest. writes (updateTaskStatusAndContinue dat p t rid w) =
             writes w @ (if t = TRepository
                         then SubscriptionUpdate (updateRepoSyncFields dat True t rid w)
                         else RepoSyncStateUpdate rid (updateRepoSyncFields dat True t rid w)) # rest
           \<and> (rest = []
              \<or> rest = [SubscriptionUpdate [(''syncStatus'', Str ''COMPLETE''),
                                            (''backfillSince'', getBackfillSince dat)]])"
    by (rule utsc_complete_writes [OF assms fin])
  show "updateRepoSyncFields dat True t rid w = [(getStatusKey t, Str ''complete'')]
           \<or> (\<exists>d. t = TCommit
                 \<and> updateRepoSyncFields dat True t rid w =
                     [(getStatusKey t, Str ''complete''), (''commitFrom'', Date d)])"
    by (rule completed_fields_shape)
  show "repoSyncStates (updateTaskStatusAndContinue dat p t rid w) =
            (if t = TRepository then repoSyncStates w
             else map (\<lambda>r. if repoId r = rid
                           then r\<lparr>columns := columns r ++ map_of (updateRepoSyncFields dat True t rid w)\<rparr>
                           else r)
                    (repoSyncStates w))"
    by (rule utsc_complete_rows [OF assms fin])
  from completion_effect [OF assms fin, of dat t rid]
  show "\<exists>subscr'. subscription (updateTaskStatusAndContinue dat p t rid w) = Some subscr'
              \<and> subscr' ''repositoryStatus'' =
                  (if t = TRepository then Some (Str ''complete'') else subscr ''repositoryStatus'')
              \<and> subscr' ''repositoryCursor'' = subscr ''repositoryCursor''"
    by (elim exE conjE) (intro exI conjI)
qed

theorem updateTaskStatusAndContinue_merges_witness:
  "subscription exWorld = Some discovered
   \<and> edges twoEdges = Some [Str ''c1'', Str ''c2'']
   \<and> updateTaskStatusAndContinue message twoEdges TBranch 10 exWorld =
       exWorld\<lparr>repoSyncStates :=
                  map (\<lambda>r. if repoId r = 10
                            then r\<lparr>columns := (columns r)(''branchStatus'' \<mapsto> Str ''pending'',
                                                           ''branchCursor'' \<mapsto> Str ''c2'')\<rparr>
                            else r)
                    (repoSyncStates exWorld),
                nextTaskDelaysMs := nextTaskDelaysMs exWorld @ [0],
                writes := writes exWorld @
                  [RepoSyncStateUpdate 10 [(''branchStatus'', Str ''pending'')],
                   RepoSyncStateUpdate 10 [(''branchCursor'', Str ''c2'')]]\<rparr>"
proof -
  have sub: "subscription exWorld = Some discovered"
    by (simp add: exWorld_def)
  have es: "edges twoEdges = Some [Str ''c1'', Str ''c2'']"
    by (simp add: twoEdges_def)
  from updateTaskStatusAndContinue_merges [OF sub, of twoEdges message TBranch 10]
  have "\<forall>es. edges twoEdges = Some es \<and> es \<noteq> [] \<longrightarrow>
      updateTaskStatusAndContinue message twoEdges TBranch 10 exWorld =
        (if TBranch = TRepository
         then exWorld\<lparr>subscription :=
                  Some (discovered(''repositoryStatus'' \<mapsto> Str ''pending'', ''repositoryCursor'' \<mapsto> last es)),
                nextTaskDelaysMs := nextTaskDelaysMs exWorld @ [0],
                writes := writes exWorld @
                  [SubscriptionUpdate [(''repositoryStatus'', Str ''pending'')],
                   SubscriptionUpdate [(''repositoryCursor'', last es)]]\<rparr>
         else exWorld\<lparr>repoSyncStates :=
                  map (\<lambda>r. if repoId r = 10
                            then r\<lparr>columns := (columns r)(getStatusKey TBranch \<mapsto> Str ''pending'',
                                                           getCursorKey TBranch \<mapsto> last es)\<rparr>
                            else r)
                    (repoSyncStates exWorld),
                nextTaskDelaysMs := nextTaskDelaysMs exWorld @ [0],
                writes := writes exWorld @
                  [RepoSyncStateUpdate 10 [(getStatusKey TBranch, Str ''pending'')],
                   RepoSyncStateUpdate 10 [(getCursorKey TBranch, last es)]]\<rparr>)"
    by (rule conjunct1)
  from this [rule_format, of "[Str ''c1'', Str ''c2'']"] es sub show ?thesis
    by (simp add: getStatusKey_def getCursorKey_def)
qed

lemma ex_two_edges:
  "updateTaskStatusAndContinue message twoEdges TBranch 10 exWorld =
     exWorld\<lparr>repoSyncStates :=
                [rowA\<lparr>columns := (columns rowA)(''branchStatus'' \<mapsto> Str ''pending'',
                                                   ''branchCursor'' \<mapsto> Str ''c2'')\<rparr>, rowB],
              nextTaskDelaysMs := [0],
              writes := [RepoSyncStateUpdate 10 [(''branchStatus'', Str ''pending'')],
                         RepoSyncStateUpdate 10 [(''branchCursor'', Str ''c2'')]]\<rparr>"
proof -
  have sub: "subscription exWorld = Some discovered"
    by (simp add: exWorld_def)
  have es: "edges twoEdges = Some [Str ''c1'', Str ''c2'']" "[Str ''c1'', Str ''c2''] \<noteq> []"
    by (simp_all add: twoEdges_def)
  have t: "TBranch \<noteq> TRepository"
    by simp
  show ?thesis
    unfolding utsc_pending_category [OF sub es t]
    by (simp add: exWorld_def rowA_def rowB_def getStatusKey_def getCursorKey_def)
qed

text \<open>
  The status and the cursor are not one merge: for a page of two edges of the branch
  category the store receives two merges for the row, the status first.
\<close>

theorem updateTaskStatusAndContinue_two_merges:
  "writes (updateTaskStatusAndContinue message twoEdges TBranch 10 exWorld) =
     [RepoSyncStateUpdate 10 [(''branchStatus'', Str ''pending'')],
      RepoSyncStateUpdate 10 [(''branchCursor'', Str ''c2'')]]
   \<and> \<not> (\<exists>merge. writes (updateTaskStatusAndContinue message twoEdges TBranch 10 exWorld)
                    = writes exWorld @ [merge])"
  unfolding ex_two_edges by (simp add: exWorld_def)

section \<open>Failed categories\<close>

lemma utsc_rows_frame:
  "\<exists>g. repoSyncStates (updateTaskStatusAndContinue dat p t rid w) = map g (repoSyncStates w)
       \<and> (\<forall>r. repoId (g r) = repoId r)
       \<and> (\<forall>r k. repoId r \<noteq> rid \<or> (k \<noteq> getStatusKey t \<and> k \<noteq> getCursorKey t \<and> k \<noteq> ''commitFrom'')
             \<longrightarrow> columns (g r) k = columns r k)"
proof -
  consider (absent) "subscription w = None"
    | (pending) subscr es where "subscription w = Some subscr" "edges p = Some es" "es \<noteq> []"
    | (complete) subscr where "subscription w = Some subscr" "edges p = None \<or> edges p = Some []"
    by (cases "subscription w"; cases "edges p") auto
  then show ?thesis
  proof cases
    case absent
    then have "repoSyncStates (updateTaskStatusAndContinue dat p t rid w) = map (\<lambda>r. r) (repoSyncStates w)"
      by (simp add: utsc_absent)
    then show ?thesis by (intro exI [of _ "\<lambda>r. r"]) simp
  next
    case pending
    show ?thesis
    proof (cases "t = TRepository")
      case True
      then have "repoSyncStates (updateTaskStatusAndContinue dat p t rid w) = map (\<lambda>r. r) (repoSyncStates w)"
        using utsc_pending_repository [OF pending] by simp
      then show ?thesis by (intro exI [of _ "\<lambda>r. r"]) simp
    next
      case False
      define g where "g = (\<lambda>r::RepoSyncState. if repoId r = rid
                            then r\<lparr>columns := (columns r)(getStatusKey t \<mapsto> Str ''pending'',
                                                           getCursorKey t \<mapsto> last es)\<rparr>
                            else r)"
      have "repoSyncStates (updateTaskStatusAndContinue dat p t rid w) = map g (repoSyncStates w)"
        using utsc_pending_category [OF pending False] by (simp add: g_def)
      then show ?thesis
        by (intro exI [of _ g]) (simp add: g_def)
    qed
  next
    case complete
    show ?thesis
    proof (cases "t = TRepository")
      case True
      then have "repoSyncStates (updateTaskStatusAndContinue dat p t rid w) = map (\<lambda>r. r) (repoSyncStates w)"
        using utsc_complete_rows [OF complete] by simp
      then show ?thesis by (intro exI [of _ "\<lambda>r. r"]) simp
    next
      case False
      define g where "g = (\<lambda>r::RepoSyncState. if repoId r = rid
                    then r\<lparr>columns := columns r ++ map_of (updateRepoSyncFields dat True t rid w)\<rparr>
                    else r)"
      have rows: "repoSyncStates (updateTaskStatusAndContinue dat p t rid w) = map g (repoSyncStates w)"
        using utsc_complete_rows [OF complete] False by (simp add: g_def)
      have "columns (g r) k = columns r k"
        if "repoId r \<noteq> rid \<or> (k \<noteq> getStatusKey t \<and> k \<noteq> getCursorKey t \<and> k \<noteq> ''commitFrom'')"
        for r k
        using that by (auto simp: g_def map_add_def map_of_fields_other)
      with rows show ?thesis
        by (intro exI [of _ g]) (simp add: g_def)
    qed
  qed
qed

lemma utsc_keeps_failed:
  assumes inv: "\<forall>r\<in>set (repoSyncStates w). repoId r = rid \<longrightarrow>
      columns r (getStatusKey c) = Some (Str ''failed'')"
    and other: "\<not> (t = c \<and> rid' = rid)"
  shows "\<forall>r\<in>set (repoSyncStates (updateTaskStatusAndContinue dat p t rid' w)). repoId r = rid \<longrightarrow>
      columns r (getStatusKey c) = Some (Str ''failed'')"
proof (intro ballI impI)
  fix r'
  assume r': "r' \<in> set (repoSyncStates (updateTaskStatusAndContinue dat p t rid' w))"
    and rid: "repoId r' = rid"
  from utsc_rows_frame [of dat p t rid' w] obtain g
    where rows: "repoSyncStates (updateTaskStatusAndContinue dat p t rid' w) = map g (repoSyncStates w)"
      and same: "\<And>r. repoId (g r) = repoId r"
      and frame: "\<And>r k. repoId r \<noteq> rid' \<or> (k \<noteq> getStatusKey t \<and> k \<noteq> getCursorKey t \<and> k \<noteq> ''commitFrom'')
             \<Longrightarrow> columns (g r) k = columns r k"
    by blast
  from r' rows obtain r where r: "r \<in> set (repoSyncStates w)" and gr: "r' = g r"
    by auto
  from rid gr same have "repoId r = rid" by simp
  with inv r have failed: "columns r (getStatusKey c) = Some (Str ''failed'')" by simp
  have "repoId r \<noteq> rid' \<or> (getStatusKey c \<noteq> getStatusKey t \<and> getStatusKey c \<noteq> getCursorKey t
      \<and> getStatusKey c \<noteq> ''commitFrom'')"
    using other \<open>repoId r = rid\<close>
    by (auto simp: statusKey_inj statusKey_not_cursorKey statusKey_not_commitFrom)
  then have "columns (g r) (getStatusKey c) = columns r (getStatusKey c)"
    by (rule frame)
  with failed gr show "columns r' (getStatusKey c) = Some (Str ''failed'')"
    by simp
qed

lemma settled_pair_not_selected:
  assumes inv: "\<forall>r\<in>set (repoSyncStates w). repoId r = rid \<longrightarrow>
      columns r (getStatusKey c) = Some (Str ''failed'') \<or> columns r (getStatusKey c) = Some (Str ''complete'')"
    and c: "c \<noteq> TRepository"
    and sel: "getNextTask subscr f w = Some nt"
  shows "\<not> (task nt = c \<and> repositoryId nt = rid)"
proof
  assume same: "task nt = c \<and> repositoryId nt = rid"
  from getNextTask_SomeD [OF sel] show False
  proof (elim disjE conjE bexE)
    assume "task nt = TRepository"
    with same c show False by simp
  next
    fix r t0
    assume r: "r \<in> set (repoSyncStates w)" and out: "isOutstanding r t0" and nt: "nt = repoTask r t0"
    from same nt have "t0 = c" "repoId r = rid"
      by (simp_all add: repoTask_def)
    with inv r out show False
      using failed_not_outstanding complete_not_outstanding by blast
  qed
qed

lemma selected_is_outstanding:
  assumes "getNextTask subscr f w = Some nt"
  shows "(task nt = TRepository \<and> subscr ''repositoryStatus'' \<noteq> Some (Str ''complete''))
     \<or> (task nt \<noteq> TRepository
        \<and> (\<exists>r\<in>set (repoSyncStates w). repoId r = repositoryId nt
              \<and> (falsy (columns r (getStatusKey (task nt)))
                  \<or> columns r (getStatusKey (task nt)) = Some (Str ''pending''))))"
  using getNextTask_SomeD [OF assms]
proof (elim disjE conjE bexE)
  assume "subscr ''repositoryStatus'' \<noteq> Some (Str ''complete'')" "task nt = TRepository"
  then show ?thesis by simp
next
  fix r t0
  assume r: "r \<in> set (repoSyncStates w)" and t0: "t0 \<in> set (getTargetTasks f)"
    and out: "isOutstanding r t0" and nt: "nt = repoTask r t0"
  have "task nt \<noteq> TRepository"
    using nt getTargetTasks_not_repository [OF t0] by (simp add: repoTask_def)
  moreover have "repoId r = repositoryId nt"
    "falsy (columns r (getStatusKey (task nt)))
      \<or> columns r (getStatusKey (task nt)) = Some (Str ''pending'')"
    using out nt by (simp_all add: repoTask_def isOutstanding_def)
  ultimately show ?thesis
    using r by blast
qed

lemma mark_rows:
  assumes "subscription w = Some subscr" "task nextTask \<noteq> TRepository"
  shows "repoSyncStates (markCurrentTaskAsFailedAndContinue dat nextTask w) =
      map (\<lambda>r. if repoId r = repositoryId nextTask
               then r\<lparr>columns := (columns r)(getStatusKey (task nextTask) \<mapsto> Str ''failed'')\<rparr>
               else r)
        (repoSyncStates w)"
  using assms
  by (simp add: markCurrentTaskAsFailedAndContinue_def findSubscriptionForMessage_def
      updateRepo_status updateRepoFromSubscription_def scheduleNextTask_def)

lemma handleBackfillError_world:
  "snd (handleBackfillError now err dat nextTask w) = w
   \<or> (\<exists>d. snd (handleBackfillError now err dat nextTask w) = scheduleNextTask d w)
   \<or> snd (handleBackfillError now err dat nextTask w) =
       updateTaskStatusAndContinue dat \<lparr>edges = Some []\<rparr> (task nextTask) (repositoryId nextTask) w"
  by (cases err) (auto simp: handleBackfillError_def Let_def)

lemma doProcessInstallation_keeps_failed:
  assumes inv: "\<forall>r\<in>set (repoSyncStates w). repoId r = rid \<longrightarrow>
      columns r (getStatusKey c) = Some (Str ''failed'')"
    and c: "c \<noteq> TRepository"
  shows "\<forall>r\<in>set (repoSyncStates (snd (doProcessInstallation now dat outcome w))). repoId r = rid \<longrightarrow>
      columns r (getStatusKey c) = Some (Str ''failed'')"
proof (cases "subscription w")
  case None
  then show ?thesis
    using inv by (simp add: doProcessInstallation_def findSubscriptionForMessage_def)
next
  case (Some subscr)
  show ?thesis
  proof (cases "getNextTask subscr (targetTasks dat) w")
    case None
    then show ?thesis
      using inv Some
      by (simp add: doProcessInstallation_def findSubscriptionForMessage_def subscriptionUpdate_def)
  next
    case nt: (Some nt)
    define w1 where "w1 = snd (subscriptionUpdate subscr [(''syncStatus'', Str ''ACTIVE'')] w)"
    have rows1: "repoSyncStates w1 = repoSyncStates w"
      by (simp add: w1_def subscriptionUpdate_def)
    have inv1: "\<forall>r\<in>set (repoSyncStates w1). repoId r = rid \<longrightarrow>
        columns r (getStatusKey c) = Some (Str ''failed'')"
      using inv rows1 by simp
    have "\<forall>r\<in>set (repoSyncStates w). repoId r = rid \<longrightarrow>
        columns r (getStatusKey c) = Some (Str ''failed'') \<or> columns r (getStatusKey c) = Some (Str ''complete'')"
      using inv by blast
    from settled_pair_not_selected [OF this c nt]
    have other: "\<not> (task nt = c \<and> repositoryId nt = rid)" .
    have step: "\<forall>r\<in>set (repoSyncStates (updateTaskStatusAndContinue dat p (task nt) (repositoryId nt) w1)).
        repoId r = rid \<longrightarrow> columns r (getStatusKey c) = Some (Str ''failed'')" for p
      using inv1 other by (rule utsc_keeps_failed)
    have run: "snd (doProcessInstallation now dat outcome w) =
        (case outcome of
           Returns taskPayload \<Rightarrow>
             updateTaskStatusAndContinue dat taskPayload (task nt) (repositoryId nt) w1
         | Throws err \<Rightarrow> snd (handleBackfillError now err dat nt w1))"
      using Some nt
      by (cases outcome)
        (simp_all add: doProcessInstallation_def findSubscriptionForMessage_def w1_def)
    show ?thesis
    proof (cases outcome)
      case (Returns taskPayload)
      then show ?thesis
        unfolding run using step by simp
    next
      case (Throws err)
      have run': "snd (doProcessInstallation now dat outcome w) =
          snd (handleBackfillError now err dat nt w1)"
        using run Throws by simp
      from handleBackfillError_world [of now err dat nt w1] show ?thesis
        unfolding run'
      proof (elim disjE exE)
        assume "snd (handleBackfillError now err dat nt w1) = w1"
        with inv1 show "\<forall>r\<in>set (repoSyncStates (snd (handleBackfillError now err dat nt w1))).
            repoId r = rid \<longrightarrow> columns r (getStatusKey c) = Some (Str ''failed'')"
          by simp
      next
        fix d
        assume "snd (handleBackfillError now err dat nt w1) = scheduleNextTask d w1"
        with inv1 show "\<forall>r\<in>set (repoSyncStates (snd (handleBackfillError now err dat nt w1))).
            repoId r = rid \<longrightarrow> columns r (getStatusKey c) = Some (Str ''failed'')"
          by (simp add: scheduleNextTask_def)
      next
        assume "snd (handleBackfillError now err dat nt w1) =
            updateTaskStatusAndContinue dat \<lparr>edges = Some []\<rparr> (task nt) (repositoryId nt) w1"
        with step show "\<forall>r\<in>set (repoSyncStates (snd (handleBackfillError now err dat nt w1))).
            repoId r = rid \<longrightarrow> columns r (getStatusKey c) = Some (Str ''failed'')"
          by simp
      qed
    qed
  qed
qed

lemma doProcessInstallation_completes:
  assumes "subscription w = Some subscr" "getNextTask subscr (targetTasks dat) w = None"
  shows "\<exists>subscr'. subscription (snd (doProcessInstallation now dat outcome w)) = Some subscr'
      \<and> subscr' ''syncStatus'' = Some (Str ''COMPLETE'')"
  using assms
  by (simp add: doProcessInstallation_def findSubscriptionForMessage_def subscriptionUpdate_def)

text \<open>
  C10: \<open>getNextTask\<close> only selects the discovery task while discovery is not complete, or a
  category whose status is unset or pending in a row of the selected repository. A category
  whose status is failed or complete in every row of a repository is never selected for that
  repository. \<open>markCurrentTaskAsFailedAndContinue\<close> leaves a category status failed in the
  repository's rows, and no attempt of \<open>doProcessInstallation\<close>, whatever its outcome,
  changes a failed category status; when nothing else is outstanding the attempt marks the
  Subscription COMPLETE with the failed category still in place.
\<close>

theorem failed_category_is_skipped:
  "(\<forall>nt. getNextTask subscr f w = Some nt \<longrightarrow>
      (task nt = TRepository \<and> subscr ''repositoryStatus'' \<noteq> Some (Str ''complete''))
      \<or> (task nt \<noteq> TRepository
         \<and> (\<exists>r\<in>set (repoSyncStates w). repoId r = repositoryId nt
               \<and> (falsy (columns r (getStatusKey (task nt)))
                   \<or> columns r (getStatusKey (task nt)) = Some (Str ''pending'')))))
   \<and> (c \<noteq> TRepository
       \<and> (\<forall>r\<in>set (repoSyncStates w). repoId r = rid \<longrightarrow>
             columns r (getStatusKey c) = Some (Str ''failed'')
             \<or> columns r (getStatusKey c) = Some (Str ''complete'')) \<longrightarrow>
       (\<forall>nt. getNextTask subscr f w = Some nt \<longrightarrow> \<not> (task nt = c \<and> repositoryId nt = rid)))
   \<and> (subscription w = Some subscr \<and> task nextTask \<noteq> TRepository \<longrightarrow>
       (\<forall>r\<in>set (repoSyncStates (markCurrentTaskAsFailedAndContinue dat nextTask w)).
          repoId r = repositoryId nextTask \<longrightarrow>
          columns r (getStatusKey (task nextTask)) = Some (Str ''failed'')))
   \<and> (c \<noteq> TRepository
       \<and> (\<forall>r\<in>set (repoSyncStates w). repoId r = rid \<longrightarrow>
             columns r (getStatusKey c) = Some (Str ''failed'')) \<longrightarrow>
       (\<forall>r\<in>set (repoSyncStates (snd (doProcessInstallation now dat outcome w))). repoId r = rid \<longrightarrow>
          columns r (getStatusKey c) = Some (Str ''failed''))
       \<and> (subscription w = Some subscr \<and> getNextTask subscr (targetTasks dat) w = None \<longrightarrow>
           (\<exists>subscr'. subscription (snd (doProcessInstallation now dat outcome w)) = Some subscr'
              \<and> subscr' ''syncStatus'' = Some (Str ''COMPLETE''))))"
proof (intro conjI allI impI)
  fix nt
  assume "getNextTask subscr f w = Some nt"
  then show "(task nt = TRepository \<and> subscr ''repositoryStatus'' \<noteq> Some (Str ''complete''))
      \<or> (task nt \<noteq> TRepository
         \<and> (\<exists>r\<in>set (repoSyncStates w). repoId r = repositoryId nt
               \<and> (falsy (columns r (getStatusKey (task nt)))
                   \<or> columns r (getStatusKey (task nt)) = Some (Str ''pending''))))"
    by (rule selected_is_outstanding)
next
  fix nt
  assume "c \<noteq> TRepository
       \<and> (\<forall>r\<in>set (repoSyncStates w). repoId r = rid \<longrightarrow>
             columns r (getStatusKey c) = Some (Str ''failed'')
             \<or> columns r (getStatusKey c) = Some (Str ''complete''))"
    and "getNextTask subscr f w = Some nt"
  then show "\<not> (task nt = c \<and> repositoryId nt = rid)"
    using settled_pair_not_selected [of w rid c subscr f nt] by blast
next
  assume a: "subscription w = Some subscr \<and> task nextTask \<noteq> TRepository"
  then have "repoSyncStates (markCurrentTaskAsFailedAndContinue dat nextTask w) =
      map (\<lambda>r. if repoId r = repositoryId nextTask
               then r\<lparr>columns := (columns r)(getStatusKey (task nextTask) \<mapsto> Str ''failed'')\<rparr>
               else r)
        (repoSyncStates w)"
    using mark_rows by blast
  then show "\<forall>r\<in>set (repoSyncStates (markCurrentTaskAsFailedAndContinue dat nextTask w)).
          repoId r = repositoryId nextTask \<longrightarrow>
          columns r (getStatusKey (task nextTask)) = Some (Str ''failed'')"
    by auto
next
  assume "c \<noteq> TRepository
       \<and> (\<forall>r\<in>set (repoSyncStates w). repoId r = rid \<longrightarrow>
             columns r (getStatusKey c) = Some (Str ''failed''))"
  then show "\<forall>r\<in>set (repoSyncStates (snd (doProcessInstallation now dat outcome w))). repoId r = rid \<longrightarrow>
          columns r (getStatusKey c) = Some (Str ''failed'')"
    using doProcessInstallation_keeps_failed [of w rid c now dat outcome] by blast
next
  assume "subscription w = Some subscr \<and> getNextTask subscr (targetTasks dat) w = None"
  then show "\<exists>subscr'. subscription (snd (doProcessInstallation now dat outcome w)) = Some subscr'
              \<and> subscr' ''syncStatus'' = Some (Str ''COMPLETE'')"
    using doProcessInstallation_completes [of w subscr dat now outcome] by blast
qed

theorem failed_category_is_skipped_witness:
  "subscription doneWorld = Some discovered
   \<and> map (\<lambda>r. (repoId r, columns r ''commitStatus'')) (repoSyncStates doneWorld)
       = [(20, Some (Str ''failed''))]
   \<and> getNextTask discovered (targetTasks message) doneWorld = None
   \<and> (\<exists>subscr'. subscription (snd (doProcessInstallation 0 message (Returns \<lparr>edges = None\<rparr>) doneWorld))
                   = Some subscr'
          \<and> subscr' ''syncStatus'' = Some (Str ''COMPLETE''))
   \<and> list_all (\<lambda>r. columns r (getStatusKey TCommit) = Some (Str ''failed''))
        (repoSyncStates (snd (doProcessInstallation 0 message (Returns \<lparr>edges = None\<rparr>) doneWorld)))"
proof -
  have sub: "subscription doneWorld = Some discovered"
    by (simp add: doneWorld_def exWorld_def)
  have rows: "repoSyncStates doneWorld = [rowB]"
    by (simp add: doneWorld_def)
  have failed: "\<forall>r\<in>set (repoSyncStates doneWorld). repoId r = 20 \<longrightarrow>
      columns r (getStatusKey TCommit) = Some (Str ''failed'')"
    by (simp add: rows rowB_def getStatusKey_def)
  have none: "getNextTask discovered (targetTasks message) doneWorld = None"
    by (simp add: getNextTask_def discovered_def message_def findAllFromSubscription_def rows
        getTargetTasks_def allTaskTypes_def isOutstanding_def getStatusKey_def rowB_def)
  have c: "TCommit \<noteq> TRepository"
    by simp
  note inst = failed_category_is_skipped [of discovered None doneWorld TCommit 20 commitTaskB message 0
      "Returns \<lparr>edges = None\<rparr>"]
  from inst c failed
  have kept: "\<forall>r\<in>set (repoSyncStates (snd (doProcessInstallation 0 message (Returns \<lparr>edges = None\<rparr>) doneWorld))).
      repoId r = 20 \<longrightarrow> columns r (getStatusKey TCommit) = Some (Str ''failed'')"
    by blast
  from inst c failed sub none
  have marked: "\<exists>subscr'. subscription (snd (doProcessInstallation 0 message (Returns \<lparr>edges = None\<rparr>) doneWorld))
                   = Some subscr'
          \<and> subscr' ''syncStatus'' = Some (Str ''COMPLETE'')"
    by blast
  have same: "repoSyncStates (snd (doProcessInstallation 0 message (Returns \<lparr>edges = None\<rparr>) doneWorld))
      = [rowB]"
    using sub none rows
    by (simp add: doProcessInstallation_def findSubscriptionForMessage_def subscriptionUpdate_def)
  have "list_all (\<lambda>r. columns r (getStatusKey TCommit) = Some (Str ''failed''))
        (repoSyncStates (snd (doProcessInstallation 0 message (Returns \<lparr>edges = None\<rparr>) doneWorld)))"
    using kept unfolding same by (simp add: rowB_def)
  moreover have "map (\<lambda>r. (repoId r, columns r ''commitStatus'')) (repoSyncStates doneWorld)
       = [(20, Some (Str ''failed''))]"
    by (simp add: rows rowB_def)
  ultimately show ?thesis
    using sub none marked by blast
qed

section \<open>The follow-up message\<close>

lemma digit_code:
  assumes "n < 10"
  shows "(of_char (''0123456789'' ! n) :: nat) = 48 + n"
proof -
  have digits: "[0..<10] = [0, 1, 2, 3, 4, 5, 6, 7, 8, 9 :: nat]"
    by (simp add: upt_rec)
  have "\<forall>k\<in>set [0..<10]. (of_char (''0123456789'' ! k) :: nat) = 48 + k"
    unfolding digits by simp
  with assms show ?thesis
    by simp
qed

lemma digit_less:
  "i < 10 \<Longrightarrow> j < 10 \<Longrightarrow> (''0123456789'' ! i < ''0123456789'' ! j) = (i < j)"
  by (simp add: less_char_def digit_code)

lemma digit_eq:
  assumes "i < 10" "j < 10"
  shows "(''0123456789'' ! i = ''0123456789'' ! j) = (i = j)"
proof
  assume "''0123456789'' ! i = ''0123456789'' ! j"
  then have "(of_char (''0123456789'' ! i) :: nat) = of_char (''0123456789'' ! j)"
    by simp
  with assms show "i = j"
    by (simp add: digit_code)
qed simp

lemma snoc_less_same_length:
  fixes xs ys :: "'a::linorder list"
  shows "length xs = length ys \<Longrightarrow> (xs @ [a] < ys @ [b]) = (xs < ys \<or> (xs = ys \<and> a < b))"
  by (induction xs ys rule: list_induct2) auto

lemma natToString_small: "n < 10 \<Longrightarrow> natToString n = [''0123456789'' ! n]"
  by (subst natToString.simps) simp

lemma natToString_big:
  "\<not> n < 10 \<Longrightarrow> natToString n = natToString (n div 10) @ [''0123456789'' ! (n mod 10)]"
  by (subst natToString.simps) simp

lemma natToString_nonempty: "natToString n \<noteq> []"
  by (cases "n < 10") (simp_all add: natToString_small natToString_big)

lemma length_natToString_one: "length (natToString n) = 1 \<longleftrightarrow> n < 10"
proof (cases "n < 10")
  case True
  then show ?thesis by (simp add: natToString_small)
next
  case False
  have "length (natToString (n div 10)) \<noteq> 0"
    using natToString_nonempty by simp
  with False show ?thesis by (simp add: natToString_big)
qed

lemma positional_less:
  fixes a b x y :: nat
  assumes "a < 10" "b < 10"
  shows "(x < y \<or> (x = y \<and> a < b)) = (10 * x + a < 10 * y + b)"
proof (cases "x < y")
  case True
  then have "10 * x + 10 \<le> 10 * y" by simp
  with assms True show ?thesis by linarith
next
  case False
  show ?thesis
  proof (cases "x = y")
    case True
    then show ?thesis by simp
  next
    case ne: False
    with False have "10 * y + 10 \<le> 10 * x" by simp
    with assms False ne show ?thesis by linarith
  qed
qed

lemma positional_eq:
  fixes a b x y :: nat
  assumes "a < 10" "b < 10"
  shows "(x = y \<and> a = b) = (10 * x + a = 10 * y + b)"
proof (cases "x = y")
  case True
  then show ?thesis by simp
next
  case False
  then have "10 * x + 10 \<le> 10 * y \<or> 10 * y + 10 \<le> 10 * x" by linarith
  with assms False show ?thesis by linarith
qed

lemma natToString_order:
  "length (natToString n) = length (natToString m) \<Longrightarrow>
     (natToString n < natToString m \<longleftrightarrow> n < m) \<and> (natToString n = natToString m \<longleftrightarrow> n = m)"
proof (induction n arbitrary: m rule: natToString.induct)
  case (1 n)
  show ?case
  proof (cases "n < 10")
    case True
    with "1.prems" have m: "m < 10"
      using length_natToString_one [of n] length_natToString_one [of m] by simp
    with True show ?thesis
      by (simp add: natToString_small digit_less digit_eq)
  next
    case False
    with "1.prems" have m: "\<not> m < 10"
      using length_natToString_one [of n] length_natToString_one [of m] by simp
    have "length (natToString (n div 10) @ [''0123456789'' ! (n mod 10)])
        = length (natToString (m div 10) @ [''0123456789'' ! (m mod 10)])"
      using "1.prems" unfolding natToString_big [OF False] natToString_big [OF m] .
    then have len: "length (natToString (n div 10)) = length (natToString (m div 10))"
      by simp
    from "1.IH" [OF False len]
    have less: "natToString (n div 10) < natToString (m div 10) \<longleftrightarrow> n div 10 < m div 10"
      and eq: "natToString (n div 10) = natToString (m div 10) \<longleftrightarrow> n div 10 = m div 10"
      by simp_all
    have dl: "(''0123456789'' ! (n mod 10) < ''0123456789'' ! (m mod 10)) = (n mod 10 < m mod 10)"
      by (rule digit_less) simp_all
    have de: "(''0123456789'' ! (n mod 10) = ''0123456789'' ! (m mod 10)) = (n mod 10 = m mod 10)"
      by (rule digit_eq) simp_all
    have a1: "(n div 10 < m div 10 \<or> (n div 10 = m div 10 \<and> n mod 10 < m mod 10)) \<longleftrightarrow> n < m"
      using positional_less [of "n mod 10" "m mod 10" "n div 10" "m div 10"] by simp
    have a2: "(n div 10 = m div 10 \<and> n mod 10 = m mod 10) \<longleftrightarrow> n = m"
      using positional_eq [of "n mod 10" "m mod 10" "n div 10" "m div 10"] by simp
    show ?thesis
      unfolding natToString_big [OF False] natToString_big [OF m]
      by (simp only: snoc_less_same_length [OF len] append1_eq_conv less eq dl de a1 a2 simp_thms)
  qed
qed

lemma decimal_nonneg: "0 \<le> i \<Longrightarrow> decimal i = natToString (nat i)"
  by (simp add: decimal_def)

lemma decimal_le_imp_le:
  assumes "0 \<le> x" "0 \<le> y" "length (decimal x) = length (decimal y)"
    "decimal x \<le> decimal y"
  shows "x \<le> y"
proof -
  have len: "length (natToString (nat x)) = length (natToString (nat y))"
    using assms by (simp add: decimal_nonneg)
  have "natToString (nat x) \<le> natToString (nat y)"
    using assms by (simp add: decimal_nonneg)
  then have "natToString (nat x) < natToString (nat y) \<or> natToString (nat x) = natToString (nat y)"
    by (simp add: le_less)
  then have "nat x < nat y \<or> nat x = nat y"
    using natToString_order [OF len] by simp
  with assms show ?thesis by linarith
qed

lemma sorted_le_last:
  fixes xs :: "'a::linorder list"
  shows "sorted xs \<Longrightarrow> x \<in> set xs \<Longrightarrow> x \<le> last xs"
  by (induction xs) auto

lemma sort_key_nonempty: "xs \<noteq> [] \<Longrightarrow> sort_key f xs \<noteq> []"
proof -
  assume "xs \<noteq> []"
  then have "length (sort_key f xs) \<noteq> 0" by simp
  then show ?thesis by (simp only: length_0_conv not_False_eq_True)
qed

lemma last_sort_key_greatest:
  fixes f :: "'a \<Rightarrow> 'b::linorder"
  assumes "xs \<noteq> []" "x \<in> set xs"
  shows "f x \<le> f (last (sort_key f xs))"
proof -
  have ne: "sort_key f xs \<noteq> []"
    using assms(1) by (rule sort_key_nonempty)
  have mem: "f x \<in> set (map f (sort_key f xs))"
    using assms(2) by simp
  have "sorted (map f (sort_key f xs))"
    by (rule sorted_sort_key)
  then have "f x \<le> last (map f (sort_key f xs))"
    using mem by (rule sorted_le_last)
  then show ?thesis
    using ne by (simp add: last_map)
qed

lemma rev_nonempty: "xs \<noteq> [] \<Longrightarrow> rev xs = last xs # rev (butlast xs)"
  by (cases xs rule: rev_cases) simp_all

lemma jsSort_safe: "list_all safeInteger xs \<Longrightarrow> jsSort xs = Some (sort_key decimal xs)"
  by (simp add: jsSort_def)

lemma maybeScheduleNextTask_nonempty:
  assumes "delays \<noteq> []" "list_all safeInteger delays"
  shows "maybeScheduleNextTask jobData delays =
     Some [(jobData, ceilSeconds (last (sort_key decimal delays)))]"
proof -
  have ne: "sort_key decimal delays \<noteq> []"
    using assms(1) by (rule sort_key_nonempty)
  show ?thesis
    unfolding maybeScheduleNextTask_def jsSort_safe [OF assms(2)] Let_def option.case
      rev_nonempty [OF ne]
    using assms(1) by simp
qed

lemma ceilSeconds_bounds: "d \<le> 1000 * ceilSeconds d \<and> 1000 * ceilSeconds d < d + 1000"
proof -
  have "- d = 1000 * ((- d) div 1000) + (- d) mod 1000"
    by simp
  moreover have "0 \<le> (- d) mod 1000" "(- d) mod 1000 < 1000"
    by simp_all
  ultimately show ?thesis
    unfolding ceilSeconds_def by linarith
qed

lemma natToString_1: "natToString (Suc 0) = ''1''"
  by (simp add: natToString_small)

lemma natToString_10: "natToString 10 = ''10''"
  using natToString_big [of 10] by (simp add: natToString_1)

lemma natToString_100: "natToString 100 = ''100''"
  using natToString_big [of 100] by (simp add: natToString_10)

lemma natToString_1000: "natToString 1000 = ''1000''"
  using natToString_big [of 1000] by (simp add: natToString_100)

lemma natToString_2: "natToString 2 = ''2''"
  by (simp add: natToString_small)

lemma natToString_20: "natToString 20 = ''20''"
  using natToString_big [of 20] by (simp add: natToString_2)

lemma natToString_200: "natToString 200 = ''200''"
  using natToString_big [of 200] by (simp add: natToString_20)

lemma natToString_2000: "natToString 2000 = ''2000''"
  using natToString_big [of 2000] by (simp add: natToString_200)

lemma decimal_1000: "decimal 1000 = ''1000''"
  by (simp add: decimal_def natToString_1000)

lemma decimal_2000: "decimal 2000 = ''2000''"
  by (simp add: decimal_def natToString_2000)

lemma example_safe: "list_all safeInteger [1000, 2000]"
  by (simp add: safeInteger_def)

lemma sort_example: "sort_key decimal [1000, 2000] = [1000, 2000]"
  by (simp add: decimal_1000 decimal_2000 less_eq_char_def less_char_def)

lemma example_delays: "set [1000, 2000 :: int] = {1000, 2000}"
  by simp

lemma example_max: "Max {1000, 2000 :: int} = 2000"
  by simp

lemma example_min: "Min {1000, 2000 :: int} = 1000"
  by simp

lemma ceilSeconds_2000: "ceilSeconds 2000 = 2"
  by (simp add: ceilSeconds_def)

lemma ceilSeconds_1000: "ceilSeconds 1000 = 1"
  by (simp add: ceilSeconds_def)

text \<open>
  C2, as the code has it: for an empty list of requested delays \<open>maybeScheduleNextTask\<close>
  sends nothing; for a non-empty list of safe integers it sends exactly one message, whose
  delay is one of the requested delays converted to seconds and rounded up. The array is
  sorted and then reversed before its first element is taken, so the delay chosen is the
  greatest of the requested delays wherever these are non-negative and have decimal
  numerals of one length (as a single request has).
\<close>

theorem maybeScheduleNextTask_sends_one:
  "maybeScheduleNextTask jobData [] = Some []
   \<and> (delays \<noteq> [] \<and> (\<forall>x\<in>set delays. safeInteger x) \<longrightarrow>
       (\<exists>d\<in>set delays. maybeScheduleNextTask jobData delays = Some [(jobData, ceilSeconds d)]
          \<and> d \<le> 1000 * ceilSeconds d \<and> 1000 * ceilSeconds d < d + 1000
          \<and> ((\<forall>x\<in>set delays. 0 \<le> x \<and> length (decimal x) = length (decimal d)) \<longrightarrow>
               d = Max (set delays))))"
proof (intro conjI impI)
  show "maybeScheduleNextTask jobData [] = Some []"
    by (simp add: maybeScheduleNextTask_def)
next
  assume hyp: "delays \<noteq> [] \<and> (\<forall>x\<in>set delays. safeInteger x)"
  then have ne: "delays \<noteq> []" and safe: "list_all safeInteger delays"
    by (simp_all add: list_all_iff)
  define d where "d = last (sort_key decimal delays)"
  have "sort_key decimal delays \<noteq> []"
    using ne by (rule sort_key_nonempty)
  then have "d \<in> set (sort_key decimal delays)"
    unfolding d_def by (rule last_in_set)
  then have mem: "d \<in> set delays"
    by simp
  have sent: "maybeScheduleNextTask jobData delays = Some [(jobData, ceilSeconds d)]"
    unfolding d_def using ne safe by (rule maybeScheduleNextTask_nonempty)
  have greatest: "decimal x \<le> decimal d" if "x \<in> set delays" for x
    unfolding d_def using ne that by (rule last_sort_key_greatest)
  have top: "d = Max (set delays)"
    if same: "\<forall>x\<in>set delays. 0 \<le> x \<and> length (decimal x) = length (decimal d)"
  proof -
    from same mem have d0: "0 \<le> d" by blast
    have le: "x \<le> d" if x: "x \<in> set delays" for x
    proof -
      from same x have x0: "0 \<le> x" and len: "length (decimal x) = length (decimal d)"
        by blast+
      from x0 d0 len greatest [OF x] show ?thesis
        by (rule decimal_le_imp_le)
    qed
    have "Max (set delays) = d"
    proof (rule Max_eqI)
      show "finite (set delays)" by (rule finite_set)
      show "y \<le> d" if "y \<in> set delays" for y
        using that by (rule le)
      show "d \<in> set delays" by (rule mem)
    qed
    then show ?thesis by (rule sym)
  qed
  show "\<exists>d\<in>set delays. maybeScheduleNextTask jobData delays = Some [(jobData, ceilSeconds d)]
          \<and> d \<le> 1000 * ceilSeconds d \<and> 1000 * ceilSeconds d < d + 1000
          \<and> ((\<forall>x\<in>set delays. 0 \<le> x \<and> length (decimal x) = length (decimal d)) \<longrightarrow>
               d = Max (set delays))"
  proof (intro bexI [of _ d] conjI impI)
    show "maybeScheduleNextTask jobData delays = Some [(jobData, ceilSeconds d)]"
      by (rule sent)
    show "d \<le> 1000 * ceilSeconds d"
      using ceilSeconds_bounds [of d] by (rule conjunct1)
    show "1000 * ceilSeconds d < d + 1000"
      using ceilSeconds_bounds [of d] by (rule conjunct2)
    show "d = Max (set delays)"
      if "\<forall>x\<in>set delays. 0 \<le> x \<and> length (decimal x) = length (decimal d)"
      using that by (rule top)
    show "d \<in> set delays" by (rule mem)
  qed
qed

theorem maybeScheduleNextTask_sends_one_witness:
  "[1000, 2000] \<noteq> ([] :: int list)
   \<and> list_all safeInteger [1000, 2000]
   \<and> maybeScheduleNextTask message [1000, 2000] =
       Some [(message, ceilSeconds (Max (set [1000, 2000])))]
   \<and> ceilSeconds (Max (set [1000, 2000])) = 2"
proof -
  have ne: "[1000, 2000] \<noteq> ([] :: int list)"
    by simp
  have safe: "\<forall>x\<in>set [1000, 2000]. safeInteger x"
    by (simp add: safeInteger_def)
  from maybeScheduleNextTask_sends_one [of message "[1000, 2000]"]
  have "([1000, 2000] :: int list) \<noteq> [] \<and> (\<forall>x\<in>set [1000, 2000]. safeInteger x) \<longrightarrow>
       (\<exists>d\<in>set [1000, 2000]. maybeScheduleNextTask message [1000, 2000] = Some [(message, ceilSeconds d)]
          \<and> d \<le> 1000 * ceilSeconds d \<and> 1000 * ceilSeconds d < d + 1000
          \<and> ((\<forall>x\<in>set [1000, 2000]. 0 \<le> x \<and> length (decimal x) = length (decimal d)) \<longrightarrow>
               d = Max (set [1000, 2000])))"
    by (rule conjunct2)
  moreover from ne safe have "([1000, 2000] :: int list) \<noteq> [] \<and> (\<forall>x\<in>set [1000, 2000]. safeInteger x)"
    by (rule conjI)
  ultimately have "\<exists>d\<in>set [1000, 2000]. maybeScheduleNextTask message [1000, 2000] = Some [(message, ceilSeconds d)]
          \<and> d \<le> 1000 * ceilSeconds d \<and> 1000 * ceilSeconds d < d + 1000
          \<and> ((\<forall>x\<in>set [1000, 2000]. 0 \<le> x \<and> length (decimal x) = length (decimal d)) \<longrightarrow>
               d = Max (set [1000, 2000]))"
    by (rule mp)
  then obtain d where d: "d \<in> set [1000, 2000]"
    and sent: "maybeScheduleNextTask message [1000, 2000] = Some [(message, ceilSeconds d)]"
    and top: "(\<forall>x\<in>set [1000, 2000]. 0 \<le> x \<and> length (decimal x) = length (decimal d)) \<longrightarrow>
               d = Max (set [1000, 2000])"
    by (elim bexE conjE)
  from d have "d = 1000 \<or> d = 2000"
    by simp
  then have len: "length (decimal d) = 4"
    by (elim disjE) (simp_all add: decimal_1000 decimal_2000)
  have "\<forall>x\<in>set [1000, 2000]. 0 \<le> x \<and> length (decimal x) = length (decimal d)"
    unfolding len example_delays by (simp add: decimal_1000 decimal_2000)
  with top have "d = Max (set [1000, 2000])"
    by (rule mp)
  with sent have "maybeScheduleNextTask message [1000, 2000] =
      Some [(message, ceilSeconds (Max (set [1000, 2000])))]"
    by (simp only:)
  moreover have "ceilSeconds (Max (set [1000, 2000])) = 2"
    unfolding example_delays example_max by (rule ceilSeconds_2000)
  ultimately show ?thesis
    using ne example_safe by (intro conjI)
qed

text \<open>
  The delay sent is not the minimum: of the requests 1000 ms and 2000 ms the message is sent
  with 2 seconds, not 1.
\<close>

theorem maybeScheduleNextTask_not_minimum:
  "maybeScheduleNextTask message [1000, 2000] = Some [(message, 2)]
   \<and> ceilSeconds (Min (set [1000, 2000])) = 1
   \<and> maybeScheduleNextTask message [1000, 2000]
       \<noteq> Some [(message, ceilSeconds (Min (set [1000, 2000])))]"
proof -
  have ne: "[1000, 2000] \<noteq> ([] :: int list)"
    by simp
  have sent: "maybeScheduleNextTask message [1000, 2000] = Some [(message, 2)]"
    unfolding maybeScheduleNextTask_nonempty [OF ne example_safe] sort_example
    by (simp add: ceilSeconds_2000)
  have least: "ceilSeconds (Min (set [1000, 2000])) = 1"
    unfolding example_delays example_min by (rule ceilSeconds_1000)
  have "maybeScheduleNextTask message [1000, 2000]
       \<noteq> Some [(message, ceilSeconds (Min (set [1000, 2000])))]"
    unfolding sent least by simp
  with sent least show ?thesis
    by (intro conjI)
qed

end
